theory Spec2Isabelle
  imports Main "HOL-Library.Word"
begin

section \<open>Values exchanged with the record source\<close>

text \<open>
  A record of the source is a Python dict from field names to dynamically typed values.
  The values are the closed variant null, boolean, integer, float, string, list, object.
  A dict keeps its insertion order and has distinct keys, so it is an association list.
  A float is carried as its IEEE bit pattern: the program never computes with one.
  A character of a \<^typ>\<open>string\<close> stands for a code point below 256.
\<close>

datatype pyval =
    PNone
  | PBool bool
  | PInt int
  | PFloat "64 word"
  | PStr string
  | PList "pyval list"
  | PDict "(string \<times> pyval) list"

type_synonym pydict = "(string \<times> pyval) list"

text \<open>An external call either raises or returns.\<close>

datatype 'a outcome = Raises | Returns 'a

section \<open>String helpers of the Python runtime\<close>

text \<open>
  \<^verbatim>\<open>str.strip()\<close> removes leading and trailing whitespace. Among the code points
  below 256 Python counts these as whitespace: 9 to 13, 28 to 32, 133 and 160.
\<close>

definition py_isspace :: "char \<Rightarrow> bool" where
  "py_isspace c =
     (let n = (of_char c :: nat)
      in (9 \<le> n \<and> n \<le> 13) \<or> (28 \<le> n \<and> n \<le> 32) \<or> n = 133 \<or> n = 160)"

definition py_strip :: "string \<Rightarrow> string" where
  "py_strip s = rev (dropWhile py_isspace (rev (dropWhile py_isspace s)))"

text \<open>\<^verbatim>\<open>s.split(c)\<close> for a one-character separator: n separators give n + 1 parts.\<close>

fun py_split :: "char \<Rightarrow> string \<Rightarrow> string list" where
  "py_split c [] = [[]]"
| "py_split c (x # xs) =
     (if x = c then [] # py_split c xs
      else (case py_split c xs of
              [] \<Rightarrow> [[x]]
            | p # ps \<Rightarrow> (x # p) # ps))"

text \<open>\<^verbatim>\<open>sep.join(parts)\<close>.\<close>

fun py_join :: "string \<Rightarrow> string list \<Rightarrow> string" where
  "py_join sep [] = []"
| "py_join sep [p] = p"
| "py_join sep (p # q # ps) = p @ sep @ py_join sep (q # ps)"

section \<open>Type inference and the CREATE TABLE text\<close>

text \<open>
  \<^verbatim>\<open>python_type_to_bq\<close>: the boolean test comes before the integer test, as in the
  source, where a Python bool is also an int.
\<close>

fun python_type_to_bq :: "pyval \<Rightarrow> string" where
  "python_type_to_bq PNone = ''STRING''"
| "python_type_to_bq (PBool b) = ''STRING''"
| "python_type_to_bq (PInt i) = ''INTEGER''"
| "python_type_to_bq (PFloat f) = ''FLOAT64''"
| "python_type_to_bq (PList xs) = ''STRING''"
| "python_type_to_bq (PDict kvs) = ''STRING''"
| "python_type_to_bq (PStr s) = ''STRING''"

text \<open>One line of the field list: two blanks, the key, a blank, the inferred type.\<close>

definition field_line :: "string \<times> pyval \<Rightarrow> string" where
  "field_line kv = ''  '' @ fst kv @ '' '' @ python_type_to_bq (snd kv)"

text \<open>
  \<^verbatim>\<open>generate_create_table_sql\<close>: None unless the table id has exactly three
  dot-separated parts.
\<close>

definition generate_create_table_sql :: "string \<Rightarrow> pydict \<Rightarrow> string option" where
  "generate_create_table_sql table_id record =
     (case py_split CHR ''.'' table_id of
        [project_id, dataset_id, table_name] \<Rightarrow>
          Some (''CREATE TABLE `'' @ project_id @ ''.'' @ dataset_id @ ''.'' @ table_name
                  @ ''` ('' @ [CHR 0x0A]
                @ py_join ('','' @ [CHR 0x0A]) (map field_line record)
                @ [CHR 0x0A] @ '');'')
      | _ \<Rightarrow> None)"

section \<open>The sanitizer\<close>

text \<open>
  \<^verbatim>\<open>json.dumps\<close> belongs to the Python library, not to this program: the sanitizer
  takes it as the parameter \<open>dumps\<close>, a function that gives a string for every value of
  the variant.
  The branches of \<^verbatim>\<open>sanitize_record_for_bq\<close> are tried in the order of the source.
\<close>

fun sanitize_value :: "(pyval \<Rightarrow> string) \<Rightarrow> pyval \<Rightarrow> pyval" where
  "sanitize_value dumps PNone = PNone"
| "sanitize_value dumps (PList xs) =
     (if xs = [] then PNone else PStr (dumps (PList xs)))"
| "sanitize_value dumps (PDict kvs) =
     (if kvs = [] then PNone else PStr (dumps (PDict kvs)))"
| "sanitize_value dumps (PBool b) = PStr (if b then ''true'' else ''false'')"
| "sanitize_value dumps (PStr s) = (if py_strip s = [] then PNone else PStr s)"
| "sanitize_value dumps v = v"

text \<open>
  The loop over \<^verbatim>\<open>record.items()\<close> stores one sanitized value under each key, in
  the order of the record; the keys of a dict are distinct, so no entry is overwritten.
\<close>

definition sanitize_record_for_bq :: "(pyval \<Rightarrow> string) \<Rightarrow> pydict \<Rightarrow> pydict" where
  "sanitize_record_for_bq dumps record = map (\<lambda>(key, v). (key, sanitize_value dumps v)) record"

section \<open>Configuration, external calls and the state of a run\<close>

text \<open>The settings that \<^verbatim>\<open>run_sync\<close> reads from the environment.\<close>

record config =
  ODOO_MODEL :: string
  BQ_TABLE_ID :: string
  BATCH_LIMIT :: int
  BUFFER_MINUTES :: int
  LOOKBACK_DAYS :: int
  DELETE_SYNCED_RECORDS :: bool

text \<open>One entry of the error list of \<^verbatim>\<open>insert_rows_json\<close>: the row index and its messages.\<close>

datatype insert_error = Insert_Error (err_index: nat) (err_messages: "string list")

text \<open>
  An instant is an integer number of microseconds; the date window is the pair (from, to).
  The range limit of \<^verbatim>\<open>datetime\<close> is not modelled.
\<close>

type_synonym date_window = "int \<times> int"

text \<open>
  Every call that leaves the program is recorded, with its arguments and its outcome, in
  the order of the calls. The record is not a variable of the source: it is what the
  program did to the outside world.
\<close>

datatype event =
    Get_Table string "unit outcome"
  | Sample_Read "pydict list outcome"
  | Query_Ids string "int list outcome"
  | Search_Read int int "date_window option" "pydict list outcome"
  | Insert_Rows string "pydict list" "string list" "insert_error list outcome"
  | Unlink "int list" "unit outcome"
  | Checkpoint_Write int "unit outcome"

text \<open>
  The outside world answers a call from the calls made so far and the arguments of the
  call, so that a deletion or an insertion may change what later calls return.
\<close>

record world =
  clock :: int
  get_table :: "event list \<Rightarrow> string \<Rightarrow> unit outcome"
  sample_read :: "event list \<Rightarrow> pydict list outcome"
  query_ids :: "event list \<Rightarrow> string \<Rightarrow> int list outcome"
  search_read :: "event list \<Rightarrow> int \<Rightarrow> int \<Rightarrow> date_window option \<Rightarrow> pydict list outcome"
  insert_rows_json ::
    "event list \<Rightarrow> string \<Rightarrow> pydict list \<Rightarrow> string list \<Rightarrow> insert_error list outcome"
  unlink :: "event list \<Rightarrow> int list \<Rightarrow> unit outcome"
  write_checkpoint :: "event list \<Rightarrow> int \<Rightarrow> unit outcome"

text \<open>
  The local variables of \<^verbatim>\<open>run_sync\<close> that live across the loop, the calls made so
  far, and whether an exception has left the function.
\<close>

record sync_state =
  existing_ids :: "int set"
  offset :: int
  total_fetched :: int
  total_inserted :: int
  total_skipped :: int
  total_deleted :: int
  total_failed :: int
  trace :: "event list"
  uncaught :: bool

section \<open>Checkpoint handling\<close>

text \<open>
  \<^verbatim>\<open>update_last_synced_time\<close> stores the instant in the checkpoint store. In cloud mode
  a failure is caught and logged; in local mode it leaves the function. The flag says
  whether an exception escaped.
\<close>

definition update_last_synced_time ::
    "bool \<Rightarrow> world \<Rightarrow> int \<Rightarrow> event list \<Rightarrow> event list \<times> bool" where
  "update_last_synced_time cloud w ts tr =
     (let r = write_checkpoint w tr ts
      in (tr @ [Checkpoint_Write ts r], \<not> cloud \<and> r = Raises))"

section \<open>Reading the destination and the source\<close>

text \<open>\<^verbatim>\<open>get_existing_ids\<close>: the set of ids of the destination, empty when the query raises.\<close>

definition get_existing_ids :: "config \<Rightarrow> world \<Rightarrow> event list \<Rightarrow> int set \<times> event list" where
  "get_existing_ids cfg w tr =
     (let r = query_ids w tr (BQ_TABLE_ID cfg)
      in (case r of Raises \<Rightarrow> {} | Returns ids \<Rightarrow> set ids, tr @ [Query_Ids (BQ_TABLE_ID cfg) r]))"

text \<open>\<^verbatim>\<open>fetch_records_batch\<close>: one page of the source, empty when the call raises.\<close>

definition fetch_records_batch ::
    "world \<Rightarrow> int \<Rightarrow> int \<Rightarrow> date_window option \<Rightarrow> event list \<Rightarrow> pydict list \<times> event list" where
  "fetch_records_batch w off limit date_filter tr =
     (let r = search_read w tr off limit date_filter
      in (case r of Raises \<Rightarrow> [] | Returns records \<Rightarrow> records,
          tr @ [Search_Read off limit date_filter r]))"

text \<open>
  \<^verbatim>\<open>r['id']\<close>: the integer under the key \<^verbatim>\<open>id\<close>. The lookup raises KeyError when
  the key is missing; an id that is not an integer is outside what the source returns and
  the model treats it the same way.
\<close>

definition record_id :: "pydict \<Rightarrow> int option" where
  "record_id r = (case map_of r ''id'' of Some (PInt i) \<Rightarrow> Some i | _ \<Rightarrow> None)"

text \<open>
  The ids of a page, read in order as line 354 of the source does; None when one of the
  lookups raises. Each record is paired with its id for the later reads of the same key.
\<close>

fun read_ids :: "pydict list \<Rightarrow> (int \<times> pydict) list option" where
  "read_ids [] = Some []"
| "read_ids (r # rs) =
     (case record_id r of
        None \<Rightarrow> None
      | Some i \<Rightarrow> (case read_ids rs of None \<Rightarrow> None | Some irs \<Rightarrow> Some ((i, r) # irs)))"

text \<open>\<^verbatim>\<open>str(n)\<close> for an integer, used by the insert id.\<close>

fun digits_of :: "nat \<Rightarrow> string" where
  "digits_of n =
     (if n < 10 then [char_of (48 + n)]
      else digits_of (n div 10) @ [char_of (48 + n mod 10)])"

definition py_str_int :: "int \<Rightarrow> string" where
  "py_str_int i = (if i < 0 then CHR ''-'' # digits_of (nat (- i)) else digits_of (nat i))"

section \<open>One page of the draining loop\<close>

text \<open>
  The deletion after a successful insert (lines 413 to 421 and 432 to 440): one unlink call
  for the given ids when deletion is configured and something was inserted; a failure of
  the call is caught and only logged.
\<close>

definition delete_from_source ::
    "config \<Rightarrow> world \<Rightarrow> int \<Rightarrow> int list \<Rightarrow> sync_state \<Rightarrow> sync_state" where
  "delete_from_source cfg w inserted_count ids_to_delete st =
     (if DELETE_SYNCED_RECORDS cfg \<and> inserted_count > 0 then
        (case unlink w (trace st) ids_to_delete of
           Raises \<Rightarrow> st\<lparr>trace := trace st @ [Unlink ids_to_delete Raises]\<rparr>
         | Returns u \<Rightarrow>
             st\<lparr>trace := trace st @ [Unlink ids_to_delete (Returns u)],
                total_deleted := total_deleted st + int (length ids_to_delete)\<rparr>)
      else st)"

text \<open>The records whose position is not among the failed indices (line 403).\<close>

definition succeeded_records :: "nat set \<Rightarrow> 'a list \<Rightarrow> 'a list" where
  "succeeded_records failed_indices new_records =
     map snd (filter (\<lambda>(i, r). i \<notin> failed_indices) (enumerate 0 new_records))"

text \<open>What follows a bulk insert that returned (lines 379 to 442).\<close>

definition reconcile ::
    "config \<Rightarrow> world \<Rightarrow> (int \<times> pydict) list \<Rightarrow> insert_error list \<Rightarrow> sync_state \<Rightarrow> sync_state" where
  "reconcile cfg w new_records errors st =
     (if errors \<noteq> [] then
        (let failed_indices = set (map err_index errors);
             failed_count = int (card failed_indices);
             success_count = int (length new_records) - failed_count;
             succeeded = succeeded_records failed_indices new_records;
             st1 = st\<lparr>existing_ids := existing_ids st \<union> set (map fst succeeded)\<rparr>;
             inserted_count = success_count;
             st2 = st1\<lparr>total_failed := total_failed st1 + failed_count\<rparr>;
             st3 = delete_from_source cfg w inserted_count (map fst succeeded) st2
         in st3\<lparr>total_inserted := total_inserted st3 + inserted_count\<rparr>)
      else
        (let inserted_count = int (length new_records);
             st1 = st\<lparr>existing_ids := existing_ids st \<union> set (map fst new_records)\<rparr>;
             st2 = delete_from_source cfg w inserted_count (map fst new_records) st1
         in st2\<lparr>total_inserted := total_inserted st2 + inserted_count\<rparr>))"

text \<open>
  The bulk insert of the new records of a page (lines 361 to 446). When the call raises,
  the handler logs and the page is left as it is.
\<close>

definition insert_new_records ::
    "config \<Rightarrow> world \<Rightarrow> (pyval \<Rightarrow> string) \<Rightarrow> (int \<times> pydict) list \<Rightarrow> sync_state \<Rightarrow> sync_state" where
  "insert_new_records cfg w dumps new_records st =
     (let sanitized_records = map (\<lambda>(i, r). sanitize_record_for_bq dumps r) new_records;
          row_ids = map (\<lambda>(i, r). ODOO_MODEL cfg @ ''_'' @ py_str_int i) new_records;
          result = insert_rows_json w (trace st) (BQ_TABLE_ID cfg) sanitized_records row_ids;
          st1 = st\<lparr>trace := trace st @ [Insert_Rows (BQ_TABLE_ID cfg) sanitized_records row_ids result]\<rparr>
      in (case result of
            Raises \<Rightarrow> st1
          | Returns errors \<Rightarrow> reconcile cfg w new_records errors st1))"

text \<open>A fetched page that is not empty (lines 350 to 446).\<close>

definition process_batch ::
    "config \<Rightarrow> world \<Rightarrow> (pyval \<Rightarrow> string) \<Rightarrow> pydict list \<Rightarrow> sync_state \<Rightarrow> sync_state" where
  "process_batch cfg w dumps batch st =
     (let st1 = st\<lparr>total_fetched := total_fetched st + int (length batch)\<rparr>
      in (case read_ids batch of
            None \<Rightarrow> st1\<lparr>uncaught := True\<rparr>
          | Some keyed \<Rightarrow>
              (let new_records = filter (\<lambda>(i, r). i \<notin> existing_ids st1) keyed;
                   skipped = int (length batch) - int (length new_records);
                   st2 = st1\<lparr>total_skipped := total_skipped st1 + skipped\<rparr>
               in if new_records \<noteq> [] then insert_new_records cfg w dumps new_records st2
                  else st2)))"

section \<open>The draining loop and the run\<close>

text \<open>
  One pass through the body of \<^verbatim>\<open>while True\<close>: the state after it, and whether the
  loop goes round again. The loop is left on an empty page, on an exception, and when the
  advanced offset has reached 100 times the batch limit.
\<close>

definition iteration ::
    "config \<Rightarrow> world \<Rightarrow> (pyval \<Rightarrow> string) \<Rightarrow> date_window option \<Rightarrow> sync_state
       \<Rightarrow> sync_state \<times> bool" where
  "iteration cfg w dumps date_filter st =
     (case fetch_records_batch w (offset st) (BATCH_LIMIT cfg) date_filter (trace st) of
        (batch, tr) \<Rightarrow>
          (let st1 = st\<lparr>trace := tr\<rparr>
           in if batch = [] then (st1, False)
              else
                (let st2 = process_batch cfg w dumps batch st1
                 in if uncaught st2 then (st2, False)
                    else
                      (let st3 = st2\<lparr>offset := offset st2 + BATCH_LIMIT cfg\<rparr>
                       in (st3, \<not> offset st3 \<ge> BATCH_LIMIT cfg * 100)))))"

partial_function (option) drain ::
    "config \<Rightarrow> world \<Rightarrow> (pyval \<Rightarrow> string) \<Rightarrow> date_window option \<Rightarrow> sync_state
       \<Rightarrow> sync_state option" where
  "drain cfg w dumps date_filter st =
     (case iteration cfg w dumps date_filter st of
        (st', again) \<Rightarrow> if again then drain cfg w dumps date_filter st' else Some st')"

text \<open>
  What a run leaves behind. When the table is missing: the calls made and the CREATE TABLE
  text that was printed, if any. Otherwise the final state, from which the summary is
  printed unless an exception escaped.
\<close>

datatype run_result =
    Schema_Advice "event list" "string option"
  | Sync_Finished sync_state

fun calls_of :: "run_result \<Rightarrow> event list" where
  "calls_of (Schema_Advice tr sql) = tr"
| "calls_of (Sync_Finished st) = trace st"

text \<open>Step 1 of \<^verbatim>\<open>run_sync\<close> when the table is not found (lines 276 to 316).\<close>

definition schema_advice :: "config \<Rightarrow> world \<Rightarrow> event list \<Rightarrow> run_result" where
  "schema_advice cfg w tr =
     (let s = sample_read w tr;
          tr1 = tr @ [Sample_Read s]
      in (case s of
            Raises \<Rightarrow> Schema_Advice tr1 None
          | Returns sample \<Rightarrow>
              (case sample of
                 [] \<Rightarrow> Schema_Advice tr1 None
               | r # rs \<Rightarrow> Schema_Advice tr1 (generate_create_table_sql (BQ_TABLE_ID cfg) r))))"

text \<open>Step 3: the date window, absent when the lookback is -1.\<close>

definition date_filter_of :: "config \<Rightarrow> world \<Rightarrow> date_window option" where
  "date_filter_of cfg w =
     (if LOOKBACK_DAYS cfg \<noteq> - 1 then
        Some (clock w - LOOKBACK_DAYS cfg * 86400000000,
              clock w - BUFFER_MINUTES cfg * 60000000)
      else None)"

definition run_sync :: "config \<Rightarrow> world \<Rightarrow> (pyval \<Rightarrow> string) \<Rightarrow> run_result option" where
  "run_sync cfg w dumps =
     (let t = get_table w [] (BQ_TABLE_ID cfg);
          tr = [Get_Table (BQ_TABLE_ID cfg) t]
      in (case t of
            Raises \<Rightarrow> Some (schema_advice cfg w tr)
          | Returns u \<Rightarrow>
              (case get_existing_ids cfg w tr of
                 (ids, tr1) \<Rightarrow>
                   map_option Sync_Finished
                     (drain cfg w dumps (date_filter_of cfg w)
                        \<lparr>existing_ids = ids, offset = 0, total_fetched = 0,
                         total_inserted = 0, total_skipped = 0, total_deleted = 0,
                         total_failed = 0, trace = tr1, uncaught = False\<rparr>))))"

section \<open>What the properties speak about\<close>

text \<open>
  The one fact about \<^verbatim>\<open>json.dumps\<close> that the sanitizer depends on: a list that is not
  empty is written with an opening bracket first, an object that is not empty with an
  opening brace first.
\<close>

definition written_in_brackets :: "(pyval \<Rightarrow> string) \<Rightarrow> bool" where
  "written_in_brackets dumps =
     ((\<forall>x xs. \<exists>body. dumps (PList (x # xs)) = CHR ''['' # body) \<and>
      (\<forall>kv kvs. \<exists>body. dumps (PDict (kv # kvs)) = CHR ''{'' # body))"

text \<open>An encoder for the examples: what \<^verbatim>\<open>json.dumps\<close> gives on the values used there.\<close>

fun example_dumps :: "pyval \<Rightarrow> string" where
  "example_dumps (PList xs) = ''[1, 2]''"
| "example_dumps (PDict kvs) = ''{}''"
| "example_dumps v = ''null''"

text \<open>Readings of the recorded calls.\<close>

fun is_page_fetch :: "event \<Rightarrow> bool" where
  "is_page_fetch (Search_Read off limit date_filter r) = True"
| "is_page_fetch e = False"

fun yields_nothing :: "event \<Rightarrow> bool" where
  "yields_nothing (Search_Read off limit date_filter Raises) = True"
| "yields_nothing (Search_Read off limit date_filter (Returns records)) = (records = [])"
| "yields_nothing e = False"

fun is_insert :: "event \<Rightarrow> bool" where
  "is_insert (Insert_Rows t rows row_ids r) = True"
| "is_insert e = False"

fun insert_raised :: "event \<Rightarrow> bool" where
  "insert_raised (Insert_Rows t rows row_ids Raises) = True"
| "insert_raised e = False"

fun is_unlink :: "event \<Rightarrow> bool" where
  "is_unlink (Unlink ids r) = True"
| "is_unlink e = False"

fun is_checkpoint_write :: "event \<Rightarrow> bool" where
  "is_checkpoint_write (Checkpoint_Write ts r) = True"
| "is_checkpoint_write e = False"

text \<open>The rows and row ids handed to the bulk-insert calls, call by call.\<close>

fun insert_args :: "event \<Rightarrow> (pydict list \<times> string list) list" where
  "insert_args (Insert_Rows t rows row_ids r) = [(rows, row_ids)]"
| "insert_args e = []"

definition insert_calls :: "event list \<Rightarrow> (pydict list \<times> string list) list" where
  "insert_calls tr = concat (map insert_args tr)"

text \<open>The ids handed to the delete calls of the source, in order.\<close>

fun unlink_args :: "event \<Rightarrow> int list" where
  "unlink_args (Unlink ids r) = ids"
| "unlink_args e = []"

definition unlinked_ids :: "event list \<Rightarrow> int list" where
  "unlinked_ids tr = concat (map unlink_args tr)"

text \<open>The number of rows of the bulk-insert calls that raised.\<close>

fun rows_abandoned :: "event \<Rightarrow> int" where
  "rows_abandoned (Insert_Rows t rows row_ids Raises) = int (length rows)"
| "rows_abandoned e = 0"

definition abandoned_rows :: "event list \<Rightarrow> int" where
  "abandoned_rows tr = sum_list (map rows_abandoned tr)"

text \<open>A record whose id is already in the set of existing ids.\<close>

definition already_synced :: "int set \<Rightarrow> pydict \<Rightarrow> bool" where
  "already_synced ids r = (case record_id r of None \<Rightarrow> False | Some i \<Rightarrow> i \<in> ids)"

text \<open>The insert id of a record: the model name, an underscore, the id.\<close>

definition insert_id :: "config \<Rightarrow> pydict \<Rightarrow> string" where
  "insert_id cfg r =
     (case record_id r of None \<Rightarrow> [] | Some i \<Rightarrow> ODOO_MODEL cfg @ ''_'' @ py_str_int i)"

text \<open>
  The ways out of the draining loop: an escaped exception, a last page fetch that gave
  nothing, or an offset that has reached 100 times the batch limit.
\<close>

definition left_loop :: "config \<Rightarrow> sync_state \<Rightarrow> bool" where
  "left_loop cfg st =
     (uncaught st \<or> yields_nothing (last (trace st)) \<or> BATCH_LIMIT cfg * 100 \<le> offset st)"

text \<open>The number of checkpoint writes among the calls of a run.\<close>

definition checkpoint_write_count :: "run_result \<Rightarrow> nat" where
  "checkpoint_write_count res = length (filter is_checkpoint_write (calls_of res))"

text \<open>The ids of the records of a page whose position is not among the failed indices.\<close>

definition ids_not_failed :: "nat set \<Rightarrow> (int \<times> pydict) list \<Rightarrow> int list" where
  "ids_not_failed F new = map (\<lambda>i. fst (new ! i)) (filter (\<lambda>i. i \<notin> F) [0..<length new])"

text \<open>The fetched records that no other counter of the summary accounts for.\<close>

definition unaccounted :: "sync_state \<Rightarrow> int" where
  "unaccounted st = total_fetched st - (total_inserted st + total_failed st + total_skipped st)"

text \<open>Every bulk insert that raised had at least one row.\<close>

definition raised_with_rows :: "event list \<Rightarrow> bool" where
  "raised_with_rows tr = list_all (\<lambda>e. \<not> insert_raised e \<or> 0 < rows_abandoned e) tr"

section \<open>Example inputs\<close>

definition example_config :: config where
  "example_config =
     \<lparr>ODOO_MODEL = ''sale.order'', BQ_TABLE_ID = ''p.d.t'', BATCH_LIMIT = 10,
      BUFFER_MINUTES = 2, LOOKBACK_DAYS = - 1, DELETE_SYNCED_RECORDS = True\<rparr>"

text \<open>The destination table is missing and the source holds the sample record of the specification.\<close>

definition missing_table_world :: world where
  "missing_table_world =
     \<lparr>clock = 0,
      get_table = (\<lambda>tr t. Raises),
      sample_read = (\<lambda>tr. Returns [[(''id'', PInt 5), (''active'', PBool False), (''tags'', PList [])]]),
      query_ids = (\<lambda>tr t. Raises),
      search_read = (\<lambda>tr off limit date_filter. Raises),
      insert_rows_json = (\<lambda>tr t rows row_ids. Raises),
      unlink = (\<lambda>tr ids. Raises),
      write_checkpoint = (\<lambda>tr ts. Raises)\<rparr>"

text \<open>
  A run over an existing table that already holds id 1. The source has the records 1 to 4
  on the first page and record 5 on the second. The bulk insert of three rows reports
  row 1 as failed; any other bulk insert raises.
\<close>

definition example_record :: "int \<Rightarrow> pydict" where
  "example_record i = [(''id'', PInt i), (''active'', PBool False), (''tags'', PList [])]"

definition sync_world :: world where
  "sync_world =
     \<lparr>clock = 0,
      get_table = (\<lambda>tr t. Returns ()),
      sample_read = (\<lambda>tr. Raises),
      query_ids = (\<lambda>tr t. Returns [1]),
      search_read = (\<lambda>tr off limit date_filter.
         if off = 0 then Returns (map example_record [1, 2, 3, 4])
         else if off = 10 then Returns [example_record 5]
         else Returns []),
      insert_rows_json = (\<lambda>tr t rows row_ids.
         if length rows = 3 then Returns [Insert_Error 1 [''invalid'']] else Raises),
      unlink = (\<lambda>tr ids. Returns ()),
      write_checkpoint = (\<lambda>tr ts. Returns ())\<rparr>"

definition sanitized_example :: "int \<Rightarrow> pydict" where
  "sanitized_example i = [(''id'', PInt i), (''active'', PStr ''false''), (''tags'', PNone)]"

definition example_final :: sync_state where
  "example_final =
     \<lparr>existing_ids = {1, 2, 4}, offset = 20, total_fetched = 5, total_inserted = 2,
      total_skipped = 1, total_deleted = 2, total_failed = 1,
      trace =
        [Get_Table ''p.d.t'' (Returns ()),
         Query_Ids ''p.d.t'' (Returns [1]),
         Search_Read 0 10 None (Returns (map example_record [1, 2, 3, 4])),
         Insert_Rows ''p.d.t'' (map sanitized_example [2, 3, 4])
           [''sale.order_2'', ''sale.order_3'', ''sale.order_4'']
           (Returns [Insert_Error 1 [''invalid'']]),
         Unlink [2, 4] (Returns ()),
         Search_Read 10 10 None (Returns [example_record 5]),
         Insert_Rows ''p.d.t'' [sanitized_example 5] [''sale.order_5''] Raises,
         Search_Read 20 10 None (Returns [])],
      uncaught = False\<rparr>"

text \<open>The new records of the first page of the example run, and the state before their insert.\<close>

definition example_new :: "(int \<times> pydict) list" where
  "example_new = map (\<lambda>i. (i, example_record i)) [2, 3, 4]"

definition example_page_state :: sync_state where
  "example_page_state =
     \<lparr>existing_ids = {1}, offset = 0, total_fetched = 4, total_inserted = 0,
      total_skipped = 1, total_deleted = 0, total_failed = 0, trace = [], uncaught = False\<rparr>"

text \<open>The state of the example run at the head of its second pass, without the calls made.\<close>

definition example_second_head :: sync_state where
  "example_second_head =
     \<lparr>existing_ids = {1, 2, 4}, offset = 10, total_fetched = 4, total_inserted = 2,
      total_skipped = 1, total_deleted = 2, total_failed = 1, trace = [], uncaught = False\<rparr>"

section \<open>The sanitizer: rules and idempotence\<close>

lemma all_dropWhile: "(\<forall>x\<in>set (dropWhile P s). P x) \<longleftrightarrow> (\<forall>x\<in>set s. P x)"
  by (induction s) auto

lemma py_strip_empty_iff: "py_strip s = [] \<longleftrightarrow> list_all py_isspace s"
  by (simp add: py_strip_def list_all_iff dropWhile_eq_Nil_conv all_dropWhile)

lemma not_space_bracket: "\<not> py_isspace CHR ''[''" "\<not> py_isspace CHR ''{''"
  by (simp_all add: py_isspace_def)

lemma strip_cons: "\<not> py_isspace c \<Longrightarrow> py_strip (c # s) \<noteq> []"
  by (simp add: py_strip_empty_iff)

lemma true_false_strip: "py_strip ''true'' \<noteq> []" "py_strip ''false'' \<noteq> []"
  by (simp_all add: py_strip_empty_iff py_isspace_def)

lemma map_of_sanitize:
  "map_of (sanitize_record_for_bq dumps r) k = map_option (sanitize_value dumps) (map_of r k)"
  by (induction r) (auto simp: sanitize_record_for_bq_def)

lemma example_dumps_brackets: "written_in_brackets example_dumps"
  by (simp add: written_in_brackets_def)

text \<open>
  Claim C3. The sanitizer maps null to null, an empty list or object to null, a list or
  object that is not empty to the string \<open>dumps\<close> gives for it, a boolean to the string
  true or false, a string whose characters are all whitespace (the empty string among
  them) to null, and leaves an integer, a float and any other string as they are; a
  record is sanitized value by value under the same keys.
\<close>

theorem sanitize_value_rules:
  "sanitize_value dumps PNone = PNone
   \<and> sanitize_value dumps (PList []) = PNone
   \<and> sanitize_value dumps (PDict []) = PNone
   \<and> sanitize_value dumps (PList (x # xs)) = PStr (dumps (PList (x # xs)))
   \<and> sanitize_value dumps (PDict (kv # kvs)) = PStr (dumps (PDict (kv # kvs)))
   \<and> sanitize_value dumps (PBool True) = PStr ''true''
   \<and> sanitize_value dumps (PBool False) = PStr ''false''
   \<and> sanitize_value dumps (PStr s) = (if list_all py_isspace s then PNone else PStr s)
   \<and> sanitize_value dumps (PInt i) = PInt i
   \<and> sanitize_value dumps (PFloat f) = PFloat f
   \<and> map_of (sanitize_record_for_bq dumps r) k = map_option (sanitize_value dumps) (map_of r k)"
  by (simp add: py_strip_empty_iff map_of_sanitize)

theorem sanitize_value_rules_witness:
  "sanitize_value example_dumps (PList [PInt 1, PInt 2]) = PStr ''[1, 2]''
   \<and> sanitize_value example_dumps (PStr ''  '') = PNone
   \<and> sanitize_value example_dumps (PStr '' a '') = PStr '' a ''
   \<and> map_of (sanitize_record_for_bq example_dumps [(''id'', PInt 5), (''active'', PBool False)])
        ''active'' = Some (PStr ''false'')"
  using sanitize_value_rules [of example_dumps "PInt 1" "[PInt 2]" _ _ "''  ''" _ _
      "[(''id'', PInt 5), (''active'', PBool False)]" "''active''"]
    sanitize_value_rules [of example_dumps _ _ _ _ "'' a ''"]
  by (simp add: py_isspace_def)

text \<open>
  Claim C4. Sanitizing a value twice gives what sanitizing it once gives, for every value
  of the variant, when \<open>dumps\<close> writes a list or object that is not empty with its
  opening bracket or brace first, as a JSON encoder does.
\<close>

theorem sanitize_value_idempotent:
  assumes "written_in_brackets dumps"
  shows "sanitize_value dumps (sanitize_value dumps v) = sanitize_value dumps v"
proof (cases v)
  case (PList xs)
  show ?thesis
  proof (cases xs)
    case Nil
    with PList show ?thesis by simp
  next
    case (Cons y ys)
    from assms obtain body where "dumps (PList (y # ys)) = CHR ''['' # body"
      unfolding written_in_brackets_def by blast
    with PList Cons show ?thesis by (simp add: strip_cons not_space_bracket)
  qed
next
  case (PDict kvs)
  show ?thesis
  proof (cases kvs)
    case Nil
    with PDict show ?thesis by simp
  next
    case (Cons y ys)
    from assms obtain body where "dumps (PDict (y # ys)) = CHR ''{'' # body"
      unfolding written_in_brackets_def by blast
    with PDict Cons show ?thesis by (simp add: strip_cons not_space_bracket)
  qed
qed (simp_all add: true_false_strip)

theorem sanitize_value_idempotent_witness:
  "written_in_brackets example_dumps
   \<and> sanitize_value example_dumps (sanitize_value example_dumps (PList [PInt 1, PInt 2]))
       = PStr ''[1, 2]''"
  using sanitize_value_idempotent [OF example_dumps_brackets, of "PList [PInt 1, PInt 2]"]
    example_dumps_brackets
  by simp

section \<open>The missing table\<close>

lemma py_join_contains: "x \<in> set xs \<Longrightarrow> \<exists>a b. py_join sep xs = a @ x @ b"
proof (induction sep xs rule: py_join.induct)
  case (1 sep)
  then show ?case by simp
next
  case (2 sep p)
  then have "py_join sep [p] = [] @ x @ []" by simp
  then show ?case by blast
next
  case (3 sep p q ps)
  show ?case
  proof (cases "x = p")
    case True
    then have "py_join sep (p # q # ps) = [] @ x @ (sep @ py_join sep (q # ps))" by simp
    then show ?thesis by blast
  next
    case False
    with 3 obtain a b where "py_join sep (q # ps) = a @ x @ b" by auto
    then have "py_join sep (p # q # ps) = (p @ sep @ a) @ x @ b" by simp
    then show ?thesis by blast
  qed
qed

text \<open>
  Claim C6. When the table lookup raises, the sample read returns at least one record and
  the table id has three dot-separated parts, the run prints the CREATE TABLE text built
  from the first sample record: it holds, for every field, the line of the key and the
  type inferred from the value (null, boolean, list, object and string give STRING, an
  integer INTEGER, a float FLOAT64). The run makes the table lookup and the sample read
  and no other call: no bulk insert takes place.
\<close>

theorem missing_table_prints_schema:
  assumes "get_table w [] (BQ_TABLE_ID cfg) = Raises"
    and "sample_read w [Get_Table (BQ_TABLE_ID cfg) Raises] = Returns (r # rs)"
    and "py_split CHR ''.'' (BQ_TABLE_ID cfg) = [p, d, t]"
  shows "\<exists>sql. run_sync cfg w dumps =
           Some (Schema_Advice [Get_Table (BQ_TABLE_ID cfg) Raises, Sample_Read (Returns (r # rs))]
                   (Some sql))
         \<and> sql = ''CREATE TABLE `'' @ p @ ''.'' @ d @ ''.'' @ t @ ''` ('' @ [CHR 0x0A]
                  @ py_join ('','' @ [CHR 0x0A]) (map field_line r) @ [CHR 0x0A] @ '');''
         \<and> (\<forall>(k, v) \<in> set r. \<exists>a b. sql = a @ (''  '' @ k @ '' '' @ python_type_to_bq v) @ b)
         \<and> python_type_to_bq PNone = ''STRING''
         \<and> python_type_to_bq (PBool bv) = ''STRING''
         \<and> python_type_to_bq (PInt iv) = ''INTEGER''
         \<and> python_type_to_bq (PFloat fv) = ''FLOAT64''
         \<and> python_type_to_bq (PList lv) = ''STRING''
         \<and> python_type_to_bq (PDict dv) = ''STRING''
         \<and> python_type_to_bq (PStr sv) = ''STRING''
         \<and> insert_calls (calls_of (Schema_Advice
               [Get_Table (BQ_TABLE_ID cfg) Raises, Sample_Read (Returns (r # rs))] (Some sql))) = []"
proof -
  let ?sql = "''CREATE TABLE `'' @ p @ ''.'' @ d @ ''.'' @ t @ ''` ('' @ [CHR 0x0A]
                  @ py_join ('','' @ [CHR 0x0A]) (map field_line r) @ [CHR 0x0A] @ '');''"
  have gen: "generate_create_table_sql (BQ_TABLE_ID cfg) r = Some ?sql"
    using assms(3) by (simp add: generate_create_table_sql_def)
  have run: "run_sync cfg w dumps =
      Some (Schema_Advice [Get_Table (BQ_TABLE_ID cfg) Raises, Sample_Read (Returns (r # rs))]
              (Some ?sql))"
    using assms(1,2) gen by (simp add: run_sync_def schema_advice_def Let_def)
  have lines: "\<exists>a b. ?sql = a @ (''  '' @ k @ '' '' @ python_type_to_bq v) @ b"
    if "(k, v) \<in> set r" for k v
  proof -
    from that have "field_line (k, v) \<in> set (map field_line r)" by force
    then obtain a b where "py_join ('','' @ [CHR 0x0A]) (map field_line r) = a @ field_line (k, v) @ b"
      using py_join_contains by blast
    then have "?sql = (''CREATE TABLE `'' @ p @ ''.'' @ d @ ''.'' @ t @ ''` ('' @ [CHR 0x0A] @ a)
                 @ (''  '' @ k @ '' '' @ python_type_to_bq v) @ (b @ [CHR 0x0A] @ '');'')"
      by (simp add: field_line_def)
    then show ?thesis by blast
  qed
  have none: "insert_calls (calls_of (Schema_Advice
      [Get_Table (BQ_TABLE_ID cfg) Raises, Sample_Read (Returns (r # rs))] (Some ?sql))) = []"
    by (simp add: insert_calls_def)
  from run lines none show ?thesis by auto
qed


theorem missing_table_prints_schema_witness:
  "get_table missing_table_world [] (BQ_TABLE_ID example_config) = Raises
   \<and> sample_read missing_table_world [Get_Table (BQ_TABLE_ID example_config) Raises]
       = Returns [[(''id'', PInt 5), (''active'', PBool False), (''tags'', PList [])]]
   \<and> py_split CHR ''.'' (BQ_TABLE_ID example_config) = [''p'', ''d'', ''t'']
   \<and> run_sync example_config missing_table_world example_dumps =
       Some (Schema_Advice
         [Get_Table ''p.d.t'' Raises,
          Sample_Read (Returns [[(''id'', PInt 5), (''active'', PBool False), (''tags'', PList [])]])]
         (Some (''CREATE TABLE `p.d.t` ('' @ [CHR 0x0A] @ ''  id INTEGER,'' @ [CHR 0x0A]
                @ ''  active STRING,'' @ [CHR 0x0A] @ ''  tags STRING'' @ [CHR 0x0A] @ '');'')))"
proof -
  have h1: "get_table missing_table_world [] (BQ_TABLE_ID example_config) = Raises"
    by (simp add: missing_table_world_def)
  have h2: "sample_read missing_table_world [Get_Table (BQ_TABLE_ID example_config) Raises]
       = Returns ([(''id'', PInt 5), (''active'', PBool False), (''tags'', PList [])] # [])"
    by (simp add: missing_table_world_def)
  have h3: "py_split CHR ''.'' (BQ_TABLE_ID example_config) = [''p'', ''d'', ''t'']"
    by (simp add: example_config_def)
  show ?thesis
    using h1 h2 h3 missing_table_prints_schema [OF h1 h2 h3, of example_dumps]
    by (simp add: field_line_def example_config_def)
qed

section \<open>What each part of a page changes\<close>

lemma succeeded_none [simp]: "succeeded_records {} xs = xs"
  by (simp add: succeeded_records_def enumerate_eq_zip)

lemma delete_fields:
  "existing_ids (delete_from_source cfg w n ids st) = existing_ids st"
  "offset (delete_from_source cfg w n ids st) = offset st"
  "total_fetched (delete_from_source cfg w n ids st) = total_fetched st"
  "total_inserted (delete_from_source cfg w n ids st) = total_inserted st"
  "total_skipped (delete_from_source cfg w n ids st) = total_skipped st"
  "total_failed (delete_from_source cfg w n ids st) = total_failed st"
  "uncaught (delete_from_source cfg w n ids st) = uncaught st"
  by (simp_all add: delete_from_source_def split: outcome.splits)

lemma delete_trace:
  "trace (delete_from_source cfg w n ids st) =
     trace st @ (if DELETE_SYNCED_RECORDS cfg \<and> 0 < n then [Unlink ids (unlink w (trace st) ids)] else [])"
  by (simp add: delete_from_source_def split: outcome.splits)

text \<open>The two branches of the reconciliation are one: an empty error list has no failed index.\<close>

lemma reconcile_fields:
  "existing_ids (reconcile cfg w new errors st) =
     existing_ids st \<union> set (map fst (succeeded_records (set (map err_index errors)) new))"
  "offset (reconcile cfg w new errors st) = offset st"
  "total_fetched (reconcile cfg w new errors st) = total_fetched st"
  "total_inserted (reconcile cfg w new errors st) =
     total_inserted st + (int (length new) - int (card (set (map err_index errors))))"
  "total_skipped (reconcile cfg w new errors st) = total_skipped st"
  "total_failed (reconcile cfg w new errors st) =
     total_failed st + int (card (set (map err_index errors)))"
  "uncaught (reconcile cfg w new errors st) = uncaught st"
  by (simp_all add: reconcile_def Let_def delete_fields)

lemma reconcile_trace:
  "trace (reconcile cfg w new errors st) =
     trace st @
       (if DELETE_SYNCED_RECORDS cfg \<and> 0 < int (length new) - int (card (set (map err_index errors)))
        then [Unlink (map fst (succeeded_records (set (map err_index errors)) new))
                (unlink w (trace st) (map fst (succeeded_records (set (map err_index errors)) new)))]
        else [])"
  by (auto simp: reconcile_def Let_def delete_trace)


lemma insert_fields:
  "existing_ids st \<subseteq> existing_ids (insert_new_records cfg w dumps new st)"
  "offset (insert_new_records cfg w dumps new st) = offset st"
  "total_fetched (insert_new_records cfg w dumps new st) = total_fetched st"
  "total_skipped (insert_new_records cfg w dumps new st) = total_skipped st"
  "uncaught (insert_new_records cfg w dumps new st) = uncaught st"
  by (auto simp: insert_new_records_def Let_def reconcile_fields split: outcome.splits)

lemma insert_trace:
  "\<exists>evs. trace (insert_new_records cfg w dumps new st) =
      trace st @ Insert_Rows (BQ_TABLE_ID cfg)
           (map (\<lambda>(i, r). sanitize_record_for_bq dumps r) new)
           (map (\<lambda>(i, r). ODOO_MODEL cfg @ ''_'' @ py_str_int i) new)
           (insert_rows_json w (trace st) (BQ_TABLE_ID cfg)
              (map (\<lambda>(i, r). sanitize_record_for_bq dumps r) new)
              (map (\<lambda>(i, r). ODOO_MODEL cfg @ ''_'' @ py_str_int i) new)) # evs
      \<and> list_all is_unlink evs"
  by (auto simp: insert_new_records_def Let_def reconcile_trace split: outcome.splits)

lemma process_fields:
  "offset (process_batch cfg w dumps batch st) = offset st"
  "total_fetched (process_batch cfg w dumps batch st) = total_fetched st + int (length batch)"
  by (auto simp: process_batch_def Let_def insert_fields split: option.splits)

lemma process_existing: "existing_ids st \<subseteq> existing_ids (process_batch cfg w dumps batch st)"
proof (cases "read_ids batch")
  case None
  then show ?thesis by (simp add: process_batch_def)
next
  case (Some keyed)
  let ?new = "filter (\<lambda>(i, r). i \<notin> existing_ids st) keyed"
  let ?st2 = "st\<lparr>total_fetched := total_fetched st + int (length batch),
                 total_skipped := total_skipped st + (int (length batch) - int (length ?new))\<rparr>"
  have "existing_ids ?st2 \<subseteq> existing_ids (insert_new_records cfg w dumps ?new ?st2)"
    by (rule insert_fields(1))
  then show ?thesis using Some by (simp add: process_batch_def Let_def)
qed

lemma process_trace:
  "\<exists>evs. trace (process_batch cfg w dumps batch st) = trace st @ evs
      \<and> list_all (\<lambda>e. is_insert e \<or> is_unlink e) evs"
proof (cases "read_ids batch")
  case None
  then show ?thesis by (simp add: process_batch_def)
next
  case (Some keyed)
  let ?new = "filter (\<lambda>(i, r). i \<notin> existing_ids st) keyed"
  let ?st2 = "st\<lparr>total_fetched := total_fetched st + int (length batch),
                 total_skipped := total_skipped st + (int (length batch) - int (length ?new))\<rparr>"
  show ?thesis
  proof (cases "?new = []")
    case True
    with Some show ?thesis by (simp add: process_batch_def Let_def)
  next
    case False
    from insert_trace [of cfg w dumps ?new ?st2] obtain evs e where
      "trace (insert_new_records cfg w dumps ?new ?st2) = trace ?st2 @ e # evs"
      "is_insert e" "list_all is_unlink evs" by auto
    moreover have "list_all (\<lambda>e. is_insert e \<or> is_unlink e) evs"
      using \<open>list_all is_unlink evs\<close> by (simp add: list_all_iff)
    ultimately show ?thesis using Some False
      by (auto simp: process_batch_def Let_def)
  qed
qed

lemma iteration_again:
  assumes "iteration cfg w dumps df st = (st', True)"
  shows "offset st' = offset st + BATCH_LIMIT cfg" and "offset st' < BATCH_LIMIT cfg * 100"
    and "\<not> uncaught st'"
  using assms
  by (auto simp: iteration_def fetch_records_batch_def Let_def process_fields
        split: if_splits outcome.splits)

text \<open>
  The loop returns when the batch limit is positive, and also when the first advance of
  the offset already reaches the cap. An invariant of the loop head, kept by every pass
  that goes round again, gives what the last pass establishes.
\<close>

lemma drain_rule:
  assumes "0 < BATCH_LIMIT cfg \<or> BATCH_LIMIT cfg * 100 \<le> offset st + BATCH_LIMIT cfg"
    and "I st"
    and cont: "\<And>s s'. I s \<Longrightarrow> iteration cfg w dumps df s = (s', True) \<Longrightarrow> I s'"
    and exit: "\<And>s s'. I s \<Longrightarrow> iteration cfg w dumps df s = (s', False) \<Longrightarrow> Q s'"
  shows "\<exists>st'. drain cfg w dumps df st = Some st' \<and> Q st'"
  using assms(1,2)
proof (induction "nat (BATCH_LIMIT cfg * 100 - offset st)" arbitrary: st rule: less_induct)
  case less
  obtain s' again where it: "iteration cfg w dumps df st = (s', again)"
    by (cases "iteration cfg w dumps df st")
  show ?case
  proof (cases again)
    case False
    with it have "drain cfg w dumps df st = Some s'"
      by (subst drain.simps) simp
    moreover from exit [OF less.prems(2)] it False have "Q s'" by simp
    ultimately show ?thesis by blast
  next
    case True
    with it have st: "iteration cfg w dumps df st = (s', True)" by simp
    note adv = iteration_again [OF st]
    from adv(1,2) less.prems(1) have pos: "0 < BATCH_LIMIT cfg" by linarith
    from adv(1,2) pos have
      "nat (BATCH_LIMIT cfg * 100 - offset s') < nat (BATCH_LIMIT cfg * 100 - offset st)"
      by linarith
    moreover from cont [OF less.prems(2) st] have "I s'" .
    ultimately obtain st' where "drain cfg w dumps df s' = Some st'" "Q st'"
      using less.hyps [of s'] pos by blast
    moreover have "drain cfg w dumps df st = drain cfg w dumps df s'"
      using st by (subst drain.simps) simp
    ultimately show ?thesis by simp
  qed
qed

section \<open>One pass of the loop, and the loop\<close>

lemma iteration_trace:
  "\<exists>r evs. trace (fst (iteration cfg w dumps df st)) =
       trace st @ Search_Read (offset st) (BATCH_LIMIT cfg) df r # evs
     \<and> list_all (\<lambda>e. is_insert e \<or> is_unlink e) evs"
proof -
  let ?r = "search_read w (trace st) (offset st) (BATCH_LIMIT cfg) df"
  let ?batch = "case ?r of Raises \<Rightarrow> [] | Returns records \<Rightarrow> records"
  let ?st1 = "st\<lparr>trace := trace st @ [Search_Read (offset st) (BATCH_LIMIT cfg) df ?r]\<rparr>"
  from process_trace [of cfg w dumps ?batch ?st1] obtain evs where
    "trace (process_batch cfg w dumps ?batch ?st1) = trace ?st1 @ evs"
    "list_all (\<lambda>e. is_insert e \<or> is_unlink e) evs" by blast
  then show ?thesis
    by (auto simp: iteration_def fetch_records_batch_def Let_def)
qed

lemma iteration_fetches:
  "length (filter is_page_fetch (trace (fst (iteration cfg w dumps df st)))) =
     Suc (length (filter is_page_fetch (trace st)))"
proof -
  from iteration_trace [of cfg w dumps df st] obtain r evs where
    tr: "trace (fst (iteration cfg w dumps df st)) =
       trace st @ Search_Read (offset st) (BATCH_LIMIT cfg) df r # evs"
    and evs: "list_all (\<lambda>e. is_insert e \<or> is_unlink e) evs" by blast
  have "\<not> is_page_fetch e" if "is_insert e \<or> is_unlink e" for e
    using that by (cases e) auto
  with evs have "filter is_page_fetch evs = []"
    by (auto simp: list_all_iff filter_empty_conv)
  with tr show ?thesis by simp
qed

lemma iteration_no_checkpoint:
  "filter is_checkpoint_write (trace (fst (iteration cfg w dumps df st))) =
     filter is_checkpoint_write (trace st)"
proof -
  from iteration_trace [of cfg w dumps df st] obtain r evs where
    tr: "trace (fst (iteration cfg w dumps df st)) =
       trace st @ Search_Read (offset st) (BATCH_LIMIT cfg) df r # evs"
    and evs: "list_all (\<lambda>e. is_insert e \<or> is_unlink e) evs" by blast
  have "\<not> is_checkpoint_write e" if "is_insert e \<or> is_unlink e" for e
    using that by (cases e) auto
  with evs have "filter is_checkpoint_write evs = []"
    by (auto simp: list_all_iff filter_empty_conv)
  with tr show ?thesis by simp
qed

lemma iteration_exit:
  assumes "iteration cfg w dumps df st = (st', False)"
  shows "uncaught st' \<or> yields_nothing (last (trace st')) \<or> BATCH_LIMIT cfg * 100 \<le> offset st'"
  using assms
  by (auto simp: iteration_def fetch_records_batch_def Let_def
        split: if_splits outcome.splits)

lemma iteration_existing:
  "existing_ids st \<subseteq> existing_ids (fst (iteration cfg w dumps df st))"
proof -
  let ?r = "search_read w (trace st) (offset st) (BATCH_LIMIT cfg) df"
  let ?batch = "case ?r of Raises \<Rightarrow> [] | Returns records \<Rightarrow> records"
  let ?st1 = "st\<lparr>trace := trace st @ [Search_Read (offset st) (BATCH_LIMIT cfg) df ?r]\<rparr>"
  have "existing_ids ?st1 \<subseteq> existing_ids (process_batch cfg w dumps ?batch ?st1)"
    by (rule process_existing)
  then show ?thesis
    by (auto simp: iteration_def fetch_records_batch_def Let_def)
qed

lemma drain_fetches:
  assumes "offset st = BATCH_LIMIT cfg * int (length (filter is_page_fetch (trace st)))"
    and "0 < BATCH_LIMIT cfg \<longrightarrow> length (filter is_page_fetch (trace st)) < 100"
    and "BATCH_LIMIT cfg \<le> 0 \<longrightarrow> length (filter is_page_fetch (trace st)) = 0"
  shows "\<exists>st'. drain cfg w dumps df st = Some st'
           \<and> length (filter is_page_fetch (trace st')) \<le> 100 \<and> left_loop cfg st'"
proof (rule drain_rule [where I = "\<lambda>s.
      offset s = BATCH_LIMIT cfg * int (length (filter is_page_fetch (trace s)))
      \<and> (0 < BATCH_LIMIT cfg \<longrightarrow> length (filter is_page_fetch (trace s)) < 100)
      \<and> (BATCH_LIMIT cfg \<le> 0 \<longrightarrow> length (filter is_page_fetch (trace s)) = 0)"])
  show "0 < BATCH_LIMIT cfg \<or> BATCH_LIMIT cfg * 100 \<le> offset st + BATCH_LIMIT cfg"
    using assms by (cases "0 < BATCH_LIMIT cfg") auto
next
  show "offset st = BATCH_LIMIT cfg * int (length (filter is_page_fetch (trace st)))
      \<and> (0 < BATCH_LIMIT cfg \<longrightarrow> length (filter is_page_fetch (trace st)) < 100)
      \<and> (BATCH_LIMIT cfg \<le> 0 \<longrightarrow> length (filter is_page_fetch (trace st)) = 0)"
    using assms by simp
next
  fix s s'
  assume inv: "offset s = BATCH_LIMIT cfg * int (length (filter is_page_fetch (trace s)))
      \<and> (0 < BATCH_LIMIT cfg \<longrightarrow> length (filter is_page_fetch (trace s)) < 100)
      \<and> (BATCH_LIMIT cfg \<le> 0 \<longrightarrow> length (filter is_page_fetch (trace s)) = 0)"
    and it: "iteration cfg w dumps df s = (s', True)"
  note adv = iteration_again [OF it]
  from iteration_fetches [of cfg w dumps df s] it
  have n: "length (filter is_page_fetch (trace s')) = Suc (length (filter is_page_fetch (trace s)))"
    by simp
  from inv adv(1,2) have pos: "0 < BATCH_LIMIT cfg"
    by (cases "0 < BATCH_LIMIT cfg") auto
  have off: "offset s' = BATCH_LIMIT cfg * int (length (filter is_page_fetch (trace s')))"
    using inv adv(1) n by (simp add: algebra_simps)
  from adv(2) off pos have "int (length (filter is_page_fetch (trace s'))) < 100"
    by (simp add: mult.commute)
  with off pos
  show "offset s' = BATCH_LIMIT cfg * int (length (filter is_page_fetch (trace s')))
      \<and> (0 < BATCH_LIMIT cfg \<longrightarrow> length (filter is_page_fetch (trace s')) < 100)
      \<and> (BATCH_LIMIT cfg \<le> 0 \<longrightarrow> length (filter is_page_fetch (trace s')) = 0)"
    by simp
next
  fix s s'
  assume inv: "offset s = BATCH_LIMIT cfg * int (length (filter is_page_fetch (trace s)))
      \<and> (0 < BATCH_LIMIT cfg \<longrightarrow> length (filter is_page_fetch (trace s)) < 100)
      \<and> (BATCH_LIMIT cfg \<le> 0 \<longrightarrow> length (filter is_page_fetch (trace s)) = 0)"
    and it: "iteration cfg w dumps df s = (s', False)"
  from iteration_fetches [of cfg w dumps df s] it
  have n: "length (filter is_page_fetch (trace s')) = Suc (length (filter is_page_fetch (trace s)))"
    by simp
  from inv n have "length (filter is_page_fetch (trace s')) \<le> 100"
    by (cases "0 < BATCH_LIMIT cfg") auto
  with iteration_exit [OF it]
  show "length (filter is_page_fetch (trace s')) \<le> 100 \<and> left_loop cfg s'"
    by (simp add: left_loop_def)
qed

section \<open>Runs\<close>

declare drain.simps [code]

lemma example_run:
  "run_sync example_config sync_world example_dumps = Some (Sync_Finished example_final)"
  by code_simp

lemma drain_returns:
  assumes "offset st = 0" and "I st"
    and step: "\<And>s. I s \<Longrightarrow> I (fst (iteration cfg w dumps df s))"
  shows "\<exists>st'. drain cfg w dumps df st = Some st' \<and> I st'"
proof (rule drain_rule [where I = I])
  show "0 < BATCH_LIMIT cfg \<or> BATCH_LIMIT cfg * 100 \<le> offset st + BATCH_LIMIT cfg"
    using assms(1) by (cases "0 < BATCH_LIMIT cfg") auto
next
  show "I st" by fact
next
  fix s s' assume "I s" and "iteration cfg w dumps df s = (s', True)"
  with step [of s] show "I s'" by simp
next
  fix s s' assume "I s" and "iteration cfg w dumps df s = (s', False)"
  with step [of s] show "I s'" by simp
qed

lemma drain_partial:
  assumes ret: "drain cfg w dumps df st = Some st'" and "I st"
    and step: "\<And>s. I s \<Longrightarrow> I (fst (iteration cfg w dumps df s))"
  shows "I st'"
proof -
  have "c = cfg \<and> w' = w \<and> d = dumps \<and> f = df \<longrightarrow> I s \<longrightarrow> I y"
    if "drain c w' d f s = Some y" for c w' d f s y
  proof (rule drain.raw_induct [where P = "\<lambda>c w' d f s y.
      c = cfg \<and> w' = w \<and> d = dumps \<and> f = df \<longrightarrow> I s \<longrightarrow> I y", OF _ that])
    fix drain' c w' d f s y
    assume IH: "\<And>c w' d f s y. drain' c w' d f s = Some y \<Longrightarrow>
        c = cfg \<and> w' = w \<and> d = dumps \<and> f = df \<longrightarrow> I s \<longrightarrow> I y"
      and body: "(case iteration c w' d f s of
          (st', again) \<Rightarrow> if again then drain' c w' d f st' else Some st') = Some y"
    show "c = cfg \<and> w' = w \<and> d = dumps \<and> f = df \<longrightarrow> I s \<longrightarrow> I y"
    proof (intro impI, elim conjE)
      assume eq: "c = cfg" "w' = w" "d = dumps" "f = df" and "I s"
      obtain s' again where it: "iteration cfg w dumps df s = (s', again)"
        by (cases "iteration cfg w dumps df s")
      from step [OF \<open>I s\<close>] it have "I s'" by simp
      show "I y"
      proof (cases again)
        case True
        with body it eq have "drain' cfg w dumps df s' = Some y" by simp
        from IH [OF this] \<open>I s'\<close> show ?thesis by simp
      next
        case False
        with body it eq \<open>I s'\<close> show ?thesis by simp
      qed
    qed
  qed
  with ret \<open>I st\<close> show ?thesis by blast
qed

text \<open>
  Claim C7. Every run returns, and the calls of a run hold at most 100 page fetches. When
  the run went through the draining loop, the loop was left on a page fetch that gave
  nothing, or with the offset at 100 times the batch limit or beyond (or by an exception
  escaping from a record without an integer id).
\<close>

theorem at_most_100_page_fetches:
  "\<exists>res. run_sync cfg w dumps = Some res
     \<and> length (filter is_page_fetch (calls_of res)) \<le> 100
     \<and> (\<forall>st. res = Sync_Finished st \<longrightarrow> left_loop cfg st)"
proof (cases "get_table w [] (BQ_TABLE_ID cfg)")
  case Raises
  then have "run_sync cfg w dumps = Some (schema_advice cfg w [Get_Table (BQ_TABLE_ID cfg) Raises])"
    by (simp add: run_sync_def)
  moreover have "length (filter is_page_fetch
      (calls_of (schema_advice cfg w [Get_Table (BQ_TABLE_ID cfg) Raises]))) \<le> 100"
    by (simp add: schema_advice_def Let_def split: outcome.splits list.splits)
  moreover have "schema_advice cfg w [Get_Table (BQ_TABLE_ID cfg) Raises] \<noteq> Sync_Finished st" for st
    by (simp add: schema_advice_def Let_def split: outcome.splits list.splits)
  ultimately show ?thesis by simp
next
  case (Returns u)
  let ?q = "query_ids w [Get_Table (BQ_TABLE_ID cfg) (Returns u)] (BQ_TABLE_ID cfg)"
  let ?st0 = "\<lparr>existing_ids = (case ?q of Raises \<Rightarrow> {} | Returns ids \<Rightarrow> set ids),
      offset = 0, total_fetched = 0, total_inserted = 0, total_skipped = 0,
      total_deleted = 0, total_failed = 0,
      trace = [Get_Table (BQ_TABLE_ID cfg) (Returns u), Query_Ids (BQ_TABLE_ID cfg) ?q],
      uncaught = False\<rparr>"
  have run: "run_sync cfg w dumps =
      map_option Sync_Finished (drain cfg w dumps (date_filter_of cfg w) ?st0)"
    using Returns by (simp add: run_sync_def get_existing_ids_def Let_def)
  have "\<exists>st'. drain cfg w dumps (date_filter_of cfg w) ?st0 = Some st'
      \<and> length (filter is_page_fetch (trace st')) \<le> 100 \<and> left_loop cfg st'"
    by (rule drain_fetches) simp_all
  with run show ?thesis by auto
qed

theorem at_most_100_page_fetches_witness:
  "run_sync example_config sync_world example_dumps = Some (Sync_Finished example_final)
   \<and> length (filter is_page_fetch (trace example_final)) = 3
   \<and> left_loop example_config example_final
   \<and> yields_nothing (last (trace example_final))"
  using at_most_100_page_fetches [of example_config sync_world example_dumps] example_run
  by (simp add: example_final_def)

lemma run_sync_table_found:
  assumes "get_table w [] (BQ_TABLE_ID cfg) = Returns u"
  shows "run_sync cfg w dumps =
      map_option Sync_Finished
        (drain cfg w dumps (date_filter_of cfg w)
           \<lparr>existing_ids =
              (case query_ids w [Get_Table (BQ_TABLE_ID cfg) (Returns u)] (BQ_TABLE_ID cfg) of
                 Raises \<Rightarrow> {} | Returns ids \<Rightarrow> set ids),
            offset = 0, total_fetched = 0, total_inserted = 0, total_skipped = 0,
            total_deleted = 0, total_failed = 0,
            trace = [Get_Table (BQ_TABLE_ID cfg) (Returns u),
                     Query_Ids (BQ_TABLE_ID cfg)
                       (query_ids w [Get_Table (BQ_TABLE_ID cfg) (Returns u)] (BQ_TABLE_ID cfg))],
            uncaught = False\<rparr>)"
  using assms by (simp add: run_sync_def get_existing_ids_def Let_def)

lemma run_sync_table_missing:
  assumes "get_table w [] (BQ_TABLE_ID cfg) = Raises"
  shows "\<exists>sql. run_sync cfg w dumps =
      Some (Schema_Advice [Get_Table (BQ_TABLE_ID cfg) Raises,
              Sample_Read (sample_read w [Get_Table (BQ_TABLE_ID cfg) Raises])] sql)"
  using assms by (simp add: run_sync_def schema_advice_def Let_def split: outcome.splits list.splits)

text \<open>A call of \<^verbatim>\<open>update_last_synced_time\<close> would show among the calls as one checkpoint write.\<close>

lemma update_last_synced_time_writes:
  "filter is_checkpoint_write (fst (update_last_synced_time cloud w ts tr)) =
     filter is_checkpoint_write tr @ [Checkpoint_Write ts (write_checkpoint w tr ts)]"
  by (simp add: update_last_synced_time_def Let_def)

text \<open>
  Claim C1, as the code has it. Every run returns, and among the calls of a run there is
  no write of the checkpoint: \<^verbatim>\<open>run_sync\<close> never calls
  \<^verbatim>\<open>update_last_synced_time\<close>, whether or not records failed.
\<close>

theorem run_writes_no_checkpoint:
  "\<exists>res. run_sync cfg w dumps = Some res \<and> checkpoint_write_count res = 0"
proof (cases "get_table w [] (BQ_TABLE_ID cfg)")
  case Raises
  from run_sync_table_missing [OF this, of dumps] show ?thesis
    by (auto simp: checkpoint_write_count_def)
next
  case (Returns u)
  let ?q = "query_ids w [Get_Table (BQ_TABLE_ID cfg) (Returns u)] (BQ_TABLE_ID cfg)"
  let ?st0 = "\<lparr>existing_ids = (case ?q of Raises \<Rightarrow> {} | Returns ids \<Rightarrow> set ids),
      offset = 0, total_fetched = 0, total_inserted = 0, total_skipped = 0,
      total_deleted = 0, total_failed = 0,
      trace = [Get_Table (BQ_TABLE_ID cfg) (Returns u), Query_Ids (BQ_TABLE_ID cfg) ?q],
      uncaught = False\<rparr>"
  have "\<exists>st'. drain cfg w dumps (date_filter_of cfg w) ?st0 = Some st'
      \<and> filter is_checkpoint_write (trace st') = []"
    by (rule drain_returns) (simp_all add: iteration_no_checkpoint)
  with run_sync_table_found [OF Returns, of dumps] show ?thesis
    by (auto simp: checkpoint_write_count_def)
qed

theorem run_writes_no_checkpoint_witness:
  "run_sync example_config sync_world example_dumps = Some (Sync_Finished example_final)
   \<and> checkpoint_write_count (Sync_Finished example_final) = 0
   \<and> total_failed example_final = 1"
  using run_writes_no_checkpoint [of example_config sync_world example_dumps] example_run
  by (simp add: example_final_def)

text \<open>
  Claim C1, as stated, fails: in the example run the draining loop completes on an empty
  page and the calls of the run hold no checkpoint write, not one.
\<close>

theorem checkpoint_written_once_counterexample:
  "map_option checkpoint_write_count (run_sync example_config sync_world example_dumps) = Some 0
   \<and> map_option checkpoint_write_count (run_sync example_config sync_world example_dumps) \<noteq> Some 1"
  by (simp add: example_run checkpoint_write_count_def example_final_def)

text \<open>
  Claim C9. No part of a page and no pass of the loop removes an id from the set of
  existing ids, so the set the loop returns holds the set it started from. A run starts
  the loop from the ids the destination query returned (none when the query raised), read
  anew in every run, and ends with a set that holds them.
\<close>

theorem existing_ids_only_grow:
  "existing_ids st \<subseteq> existing_ids (delete_from_source cfg w n ids st)
   \<and> existing_ids st \<subseteq> existing_ids (reconcile cfg w new errors st)
   \<and> existing_ids st \<subseteq> existing_ids (insert_new_records cfg w dumps new st)
   \<and> existing_ids st \<subseteq> existing_ids (process_batch cfg w dumps batch st)
   \<and> existing_ids st \<subseteq> existing_ids (fst (iteration cfg w dumps df st))
   \<and> (\<forall>st'. drain cfg w dumps df st = Some st' \<longrightarrow> existing_ids st \<subseteq> existing_ids st')
   \<and> (\<forall>u. get_table w [] (BQ_TABLE_ID cfg) = Returns u \<longrightarrow>
        (\<exists>st'. run_sync cfg w dumps = Some (Sync_Finished st')
           \<and> (case query_ids w [Get_Table (BQ_TABLE_ID cfg) (Returns u)] (BQ_TABLE_ID cfg) of
                Raises \<Rightarrow> {} | Returns ids \<Rightarrow> set ids) \<subseteq> existing_ids st'))"
proof -
  have loop: "existing_ids st \<subseteq> existing_ids st'" if "drain cfg w dumps df st = Some st'" for st'
  proof (rule drain_partial [OF that, where I = "\<lambda>s. existing_ids st \<subseteq> existing_ids s"])
    show "existing_ids st \<subseteq> existing_ids st" by simp
  next
    fix s :: sync_state assume "existing_ids st \<subseteq> existing_ids s"
    with iteration_existing [of s cfg w dumps df]
    show "existing_ids st \<subseteq> existing_ids (fst (iteration cfg w dumps df s))" by blast
  qed
  have run: "\<exists>st'. run_sync cfg w dumps = Some (Sync_Finished st')
           \<and> (case query_ids w [Get_Table (BQ_TABLE_ID cfg) (Returns u)] (BQ_TABLE_ID cfg) of
                Raises \<Rightarrow> {} | Returns ids \<Rightarrow> set ids) \<subseteq> existing_ids st'"
    if found: "get_table w [] (BQ_TABLE_ID cfg) = Returns u" for u
  proof -
    let ?q = "query_ids w [Get_Table (BQ_TABLE_ID cfg) (Returns u)] (BQ_TABLE_ID cfg)"
    let ?A = "case ?q of Raises \<Rightarrow> {} | Returns ids \<Rightarrow> set ids"
    let ?st0 = "\<lparr>existing_ids = ?A,
      offset = 0, total_fetched = 0, total_inserted = 0, total_skipped = 0,
      total_deleted = 0, total_failed = 0,
      trace = [Get_Table (BQ_TABLE_ID cfg) (Returns u), Query_Ids (BQ_TABLE_ID cfg) ?q],
      uncaught = False\<rparr>"
    have "\<exists>st'. drain cfg w dumps (date_filter_of cfg w) ?st0 = Some st'
        \<and> ?A \<subseteq> existing_ids st'"
    proof (rule drain_returns)
      fix s :: sync_state assume "?A \<subseteq> existing_ids s"
      with iteration_existing [of s cfg w dumps "date_filter_of cfg w"]
      show "?A \<subseteq> existing_ids (fst (iteration cfg w dumps (date_filter_of cfg w) s))" by blast
    qed simp_all
    with run_sync_table_found [OF found, of dumps] show ?thesis by auto
  qed
  show ?thesis
    using loop run
    by (simp add: delete_fields reconcile_fields insert_fields process_existing iteration_existing)
qed

theorem existing_ids_only_grow_witness:
  "get_table sync_world [] (BQ_TABLE_ID example_config) = Returns ()
   \<and> run_sync example_config sync_world example_dumps = Some (Sync_Finished example_final)
   \<and> query_ids sync_world [Get_Table (BQ_TABLE_ID example_config) (Returns ())]
        (BQ_TABLE_ID example_config) = Returns [1]
   \<and> set [1] \<subseteq> existing_ids example_final
   \<and> existing_ids example_final = {1, 2, 4}"
proof -
  have found: "get_table sync_world [] (BQ_TABLE_ID example_config) = Returns ()"
    by (simp add: sync_world_def)
  have q: "query_ids sync_world [Get_Table (BQ_TABLE_ID example_config) (Returns ())]
        (BQ_TABLE_ID example_config) = Returns [1]"
    by (simp add: sync_world_def)
  from existing_ids_only_grow [of _ example_config sync_world _ _ _ _ example_dumps]
  have "\<exists>st'. run_sync example_config sync_world example_dumps = Some (Sync_Finished st')
      \<and> (case query_ids sync_world [Get_Table (BQ_TABLE_ID example_config) (Returns ())]
            (BQ_TABLE_ID example_config) of Raises \<Rightarrow> {} | Returns ids \<Rightarrow> set ids)
          \<subseteq> existing_ids st'"
    using found by blast
  with example_run q found show ?thesis
    by (simp add: example_final_def)
qed

section \<open>Duplicates\<close>

lemma read_ids_total:
  "(\<forall>r\<in>set batch. record_id r \<noteq> None) \<Longrightarrow> \<exists>keyed. read_ids batch = Some keyed"
  by (induction batch) auto

lemma read_ids_view:
  "read_ids batch = Some keyed \<Longrightarrow>
     length keyed = length batch
     \<and> map snd (filter (\<lambda>(i, r). i \<notin> E) keyed) = filter (\<lambda>r. \<not> already_synced E r) batch
     \<and> map (\<lambda>(i, r). f r) (filter (\<lambda>(i, r). i \<notin> E) keyed)
         = map f (filter (\<lambda>r. \<not> already_synced E r) batch)
     \<and> map (\<lambda>(i, r). ODOO_MODEL cfg @ ''_'' @ py_str_int i) (filter (\<lambda>(i, r). i \<notin> E) keyed)
         = map (insert_id cfg) (filter (\<lambda>r. \<not> already_synced E r) batch)
     \<and> length (filter (\<lambda>(i, r). i \<in> E) keyed) = length (filter (already_synced E) batch)"
proof (induction batch arbitrary: keyed)
  case Nil
  then show ?case by simp
next
  case (Cons r rs)
  from Cons.prems obtain i irs where i: "record_id r = Some i" and irs: "read_ids rs = Some irs"
    and keyed: "keyed = (i, r) # irs"
    by (auto split: option.splits)
  from Cons.IH [OF irs] keyed i show ?case
    by (simp add: already_synced_def insert_id_def)
qed

lemma length_filter_compl:
  "int (length xs) - int (length (filter (\<lambda>x. \<not> P x) xs)) = int (length (filter P xs))"
  using sum_length_filter_compl [of P xs] by simp

text \<open>
  Claim C5. For a fetched page whose records all carry an integer id, the skipped counter
  grows by exactly the number of records whose id is already among the existing ids. The
  page adds at most one bulk-insert call, and that call holds exactly the sanitized
  records that are not duplicates, with their insert ids; when every record of the page
  is a duplicate, the page makes no call at all.
\<close>

theorem duplicates_counted_and_left_out:
  assumes "\<forall>r\<in>set batch. record_id r \<noteq> None"
  shows "total_skipped (process_batch cfg w dumps batch st) =
           total_skipped st + int (length (filter (already_synced (existing_ids st)) batch))
         \<and> insert_calls (trace (process_batch cfg w dumps batch st)) =
             insert_calls (trace st) @
               (if filter (\<lambda>r. \<not> already_synced (existing_ids st) r) batch = [] then []
                else [(map (sanitize_record_for_bq dumps)
                         (filter (\<lambda>r. \<not> already_synced (existing_ids st) r) batch),
                       map (insert_id cfg)
                         (filter (\<lambda>r. \<not> already_synced (existing_ids st) r) batch))])
         \<and> (filter (\<lambda>r. \<not> already_synced (existing_ids st) r) batch = [] \<longrightarrow>
               trace (process_batch cfg w dumps batch st) = trace st)"
proof -
  from read_ids_total [OF assms] obtain keyed where keyed: "read_ids batch = Some keyed" ..
  let ?E = "existing_ids st"
  let ?new = "filter (\<lambda>(i, r). i \<notin> ?E) keyed"
  let ?fresh = "filter (\<lambda>r. \<not> already_synced ?E r) batch"
  let ?st2 = "st\<lparr>total_fetched := total_fetched st + int (length batch),
                 total_skipped := total_skipped st + (int (length batch) - int (length ?new))\<rparr>"
  note view = read_ids_view [OF keyed, of ?E _ cfg]
  have len: "length ?new = length ?fresh"
    using view [of id] by (metis length_map)
  have skipped: "int (length batch) - int (length ?new)
      = int (length (filter (already_synced ?E) batch))"
    using len length_filter_compl [of batch "already_synced ?E"] by simp
  have empty: "?new = [] \<longleftrightarrow> ?fresh = []"
    using len by (metis length_0_conv)
  have rows: "map (\<lambda>(i, r). sanitize_record_for_bq dumps r) ?new
      = map (sanitize_record_for_bq dumps) ?fresh"
    using view [of "sanitize_record_for_bq dumps"] by simp
  have ids: "map (\<lambda>(i, r). ODOO_MODEL cfg @ ''_'' @ py_str_int i) ?new = map (insert_id cfg) ?fresh"
    using view [of id] by simp
  show ?thesis
  proof (cases "?new = []")
    case True
    then have "process_batch cfg w dumps batch st = ?st2"
      using keyed by (simp add: process_batch_def Let_def)
    with True empty skipped show ?thesis by simp
  next
    case False
    then have pb: "process_batch cfg w dumps batch st = insert_new_records cfg w dumps ?new ?st2"
      using keyed by (simp add: process_batch_def Let_def)
    from insert_trace [of cfg w dumps ?new ?st2] obtain evs res where
      tr: "trace (insert_new_records cfg w dumps ?new ?st2) =
        trace st @ Insert_Rows (BQ_TABLE_ID cfg)
           (map (\<lambda>(i, r). sanitize_record_for_bq dumps r) ?new)
           (map (\<lambda>(i, r). ODOO_MODEL cfg @ ''_'' @ py_str_int i) ?new) res # evs"
      and evs: "list_all is_unlink evs" by auto
    have "insert_args e = []" if "is_unlink e" for e using that by (cases e) auto
    with evs have "concat (map insert_args evs) = []"
      by (auto simp: list_all_iff)
    with tr rows ids have "insert_calls (trace (insert_new_records cfg w dumps ?new ?st2)) =
        insert_calls (trace st) @
          [(map (sanitize_record_for_bq dumps) ?fresh, map (insert_id cfg) ?fresh)]"
      by (simp add: insert_calls_def)
    moreover have "total_skipped (insert_new_records cfg w dumps ?new ?st2) =
        total_skipped st + (int (length batch) - int (length ?new))"
      by (simp add: insert_fields)
    ultimately show ?thesis using pb False empty skipped by simp
  qed
qed

theorem duplicates_counted_and_left_out_witness:
  "record_id (example_record 1) = Some 1
   \<and> record_id (example_record 2) = Some 2
   \<and> total_skipped (process_batch example_config sync_world example_dumps
        (map example_record [1, 2])
        \<lparr>existing_ids = {1}, offset = 0, total_fetched = 0, total_inserted = 0,
         total_skipped = 0, total_deleted = 0, total_failed = 0, trace = [],
         uncaught = False\<rparr>) = 1
   \<and> insert_calls (trace (process_batch example_config sync_world example_dumps
        (map example_record [1, 2])
        \<lparr>existing_ids = {1}, offset = 0, total_fetched = 0, total_inserted = 0,
         total_skipped = 0, total_deleted = 0, total_failed = 0, trace = [],
         uncaught = False\<rparr>)) = [([sanitized_example 2], [''sale.order_2''])]"
proof -
  have h: "\<forall>r\<in>set (map example_record [1, 2]). record_id r \<noteq> None"
    by (simp add: example_record_def record_id_def)
  have two: "py_str_int 2 = ''2''" by code_simp
  have r1: "record_id (example_record 1) = Some 1" "record_id (example_record 2) = Some 2"
    by (simp_all add: example_record_def record_id_def)
  show ?thesis
    using r1 duplicates_counted_and_left_out [OF h, of example_config sync_world example_dumps
        "\<lparr>existing_ids = {1}, offset = 0, total_fetched = 0, total_inserted = 0,
         total_skipped = 0, total_deleted = 0, total_failed = 0, trace = [],
         uncaught = False\<rparr>"]
    by (simp add: example_record_def record_id_def already_synced_def insert_calls_def
        sanitize_record_for_bq_def sanitized_example_def insert_id_def example_config_def
        two)
qed

section \<open>Partial failure of a bulk insert\<close>

lemma succeeded_enumerate:
  "map snd (filter (\<lambda>(i, r). i \<notin> F) (enumerate n xs)) = nths xs {j. j + n \<notin> F}"
proof (induction xs arbitrary: n)
  case Nil
  then show ?case by simp
next
  case (Cons x xs)
  have "{j. Suc j + n \<notin> F} = {j. j + Suc n \<notin> F}" by simp
  with Cons [of "Suc n"] show ?case
    by (simp add: nths_Cons)
qed

lemma succeeded_nths: "succeeded_records F xs = nths xs (- F)"
proof -
  have "{j. j + 0 \<notin> F} = - F" by auto
  with succeeded_enumerate [of F 0 xs] show ?thesis
    by (simp add: succeeded_records_def)
qed

lemma succeeded_length:
  assumes "F \<subseteq> {..<length xs}"
  shows "length (succeeded_records F xs) = length xs - card F"
proof -
  have "{i. i < length xs \<and> i \<in> - F} = {..<length xs} - F" by auto
  moreover have "finite F" using assms by (rule finite_subset) simp
  ultimately have "card {i. i < length xs \<and> i \<in> - F} = length xs - card F"
    using assms by (simp add: card_Diff_subset)
  then show ?thesis by (simp add: succeeded_nths length_nths)
qed

lemma succeeded_set:
  "set (map f (succeeded_records F xs)) = {f (xs ! i) | i. i < length xs \<and> i \<notin> F}"
  by (auto simp: succeeded_nths set_nths)

lemma succeeded_distinct:
  "distinct (map f xs) \<Longrightarrow> distinct (map f (succeeded_records F xs))"
  by (simp add: succeeded_nths nths_map [symmetric] distinct_nthsI)

lemma unlinked_ids_append: "unlinked_ids (a @ b) = unlinked_ids a @ unlinked_ids b"
  by (simp add: unlinked_ids_def)


lemma zip_positions: "zip xs [0..<length xs] = map (\<lambda>i. (xs ! i, i)) [0..<length xs]"
  by (rule nth_equalityI) simp_all

lemma nths_positions: "nths xs A = map (\<lambda>i. xs ! i) (filter (\<lambda>i. i \<in> A) [0..<length xs])"
proof -
  have "filter (\<lambda>p. snd p \<in> A) (map (\<lambda>i. (xs ! i, i)) ys)
      = map (\<lambda>i. (xs ! i, i)) (filter (\<lambda>i. i \<in> A) ys)" for ys
    by (induction ys) auto
  then have "map fst (filter (\<lambda>p. snd p \<in> A) (map (\<lambda>i. (xs ! i, i)) [0..<length xs]))
      = map (\<lambda>i. xs ! i) (filter (\<lambda>i. i \<in> A) [0..<length xs])"
    by (simp only: map_map comp_def fst_conv)
  then show ?thesis
    unfolding nths_def zip_positions .
qed

lemma succeeded_ids: "map fst (succeeded_records F new) = ids_not_failed F new"
proof -
  have "map fst (nths new (- F)) = map (\<lambda>i. fst (new ! i)) (filter (\<lambda>i. i \<in> - F) [0..<length new])"
    by (simp add: nths_positions [of new])
  then show ?thesis by (simp add: succeeded_nths ids_not_failed_def)
qed

lemma insert_returned:
  assumes "insert_rows_json w (trace st) (BQ_TABLE_ID cfg)
        (map (\<lambda>(i, r). sanitize_record_for_bq dumps r) new)
        (map (\<lambda>(i, r). ODOO_MODEL cfg @ ''_'' @ py_str_int i) new) = Returns errors"
  shows "insert_new_records cfg w dumps new st =
      reconcile cfg w new errors
        (st\<lparr>trace := trace st @ [Insert_Rows (BQ_TABLE_ID cfg)
            (map (\<lambda>(i, r). sanitize_record_for_bq dumps r) new)
            (map (\<lambda>(i, r). ODOO_MODEL cfg @ ''_'' @ py_str_int i) new) (Returns errors)]\<rparr>)"
  using assms by (simp add: insert_new_records_def Let_def)

lemma insert_raises:
  assumes "insert_rows_json w (trace st) (BQ_TABLE_ID cfg)
        (map (\<lambda>(i, r). sanitize_record_for_bq dumps r) new)
        (map (\<lambda>(i, r). ODOO_MODEL cfg @ ''_'' @ py_str_int i) new) = Raises"
  shows "insert_new_records cfg w dumps new st =
      st\<lparr>trace := trace st @ [Insert_Rows (BQ_TABLE_ID cfg)
            (map (\<lambda>(i, r). sanitize_record_for_bq dumps r) new)
            (map (\<lambda>(i, r). ODOO_MODEL cfg @ ''_'' @ py_str_int i) new) Raises]\<rparr>"
  using assms by (simp add: insert_new_records_def Let_def)

text \<open>
  Claim C2. Take a page of N new records with distinct ids, none of them among the
  existing ids, whose bulk insert returns an error list that is not empty and names k
  distinct indices of the page. Then the ids added to the existing ids are exactly the ids
  at the other indices, N - k of them; these same ids, and no others, are handed to the
  delete call when deletion is configured; the failed counter grows by k and the inserted
  counter by N - k; and the id at a failed index is neither added nor deleted.
\<close>

theorem partial_failure_isolated:
  assumes ret: "insert_rows_json w (trace st) (BQ_TABLE_ID cfg)
        (map (\<lambda>(i, r). sanitize_record_for_bq dumps r) new)
        (map (\<lambda>(i, r). ODOO_MODEL cfg @ ''_'' @ py_str_int i) new) = Returns errors"
    and nonempty: "errors \<noteq> []"
    and range: "\<forall>e\<in>set errors. err_index e < length new"
    and dist: "distinct (map fst new)"
    and fresh: "\<forall>p\<in>set new. fst p \<notin> existing_ids st"
  shows "existing_ids (insert_new_records cfg w dumps new st) =
           existing_ids st \<union> set (ids_not_failed (err_index ` set errors) new)
         \<and> set (ids_not_failed (err_index ` set errors) new) \<inter> existing_ids st = {}
         \<and> distinct (ids_not_failed (err_index ` set errors) new)
         \<and> length (ids_not_failed (err_index ` set errors) new) =
             length new - card (err_index ` set errors)
         \<and> unlinked_ids (trace (insert_new_records cfg w dumps new st)) =
             unlinked_ids (trace st) @
               (if DELETE_SYNCED_RECORDS cfg then ids_not_failed (err_index ` set errors) new
                else [])
         \<and> total_failed (insert_new_records cfg w dumps new st) =
             total_failed st + int (card (err_index ` set errors))
         \<and> total_inserted (insert_new_records cfg w dumps new st) =
             total_inserted st + int (length new - card (err_index ` set errors))
         \<and> (\<forall>i \<in> err_index ` set errors.
               fst (new ! i) \<notin> existing_ids (insert_new_records cfg w dumps new st)
               \<and> fst (new ! i) \<notin> set (ids_not_failed (err_index ` set errors) new))"
proof -
  let ?F = "err_index ` set errors"
  let ?ok = "ids_not_failed ?F new"
  let ?st' = "insert_new_records cfg w dumps new st"
  have F: "?F \<subseteq> {..<length new}" using range by auto
  then have finF: "finite ?F" by (rule finite_subset) simp
  from F finF have kN: "card ?F \<le> length new"
    using card_mono [of "{..<length new}" ?F] by simp
  have ok: "map fst (succeeded_records ?F new) = ?ok" by (rule succeeded_ids)
  have len: "length ?ok = length new - card ?F"
    using succeeded_length [OF F] ok by (metis length_map)
  have dis: "distinct ?ok"
    using succeeded_distinct [OF dist, of ?F] ok by simp
  have okset: "set ?ok = {fst (new ! i) | i. i < length new \<and> i \<notin> ?F}"
    using succeeded_set [of fst ?F new] ok by simp
  have new_fresh: "fst (new ! i) \<notin> existing_ids st" if "i < length new" for i
    using fresh nth_mem [OF that] by blast
  have disjoint: "set ?ok \<inter> existing_ids st = {}"
    using new_fresh okset by auto
  have ex: "existing_ids ?st' = existing_ids st \<union> set ?ok"
    using ok by (simp add: insert_returned [OF ret] reconcile_fields)
  have failed: "total_failed ?st' = total_failed st + int (card ?F)"
    by (simp add: insert_returned [OF ret] reconcile_fields)
  have inserted: "total_inserted ?st' = total_inserted st + int (length new - card ?F)"
    using kN by (simp add: insert_returned [OF ret] reconcile_fields of_nat_diff)
  have "length new - card ?F = 0 \<Longrightarrow> ?ok = []" using len by simp
  then have del: "unlinked_ids (trace ?st') =
      unlinked_ids (trace st) @ (if DELETE_SYNCED_RECORDS cfg then ?ok else [])"
    using ok kN
    by (auto simp: insert_returned [OF ret] reconcile_trace unlinked_ids_def)
  have isolated: "fst (new ! i) \<notin> existing_ids ?st' \<and> fst (new ! i) \<notin> set ?ok" if "i \<in> ?F" for i
  proof -
    from that F have i: "i < length new" by auto
    have "fst (new ! i) \<notin> set ?ok"
    proof
      assume "fst (new ! i) \<in> set ?ok"
      with okset obtain j where j: "j < length new" "j \<notin> ?F" "fst (new ! i) = fst (new ! j)"
        by auto
      with i dist have "i = j"
        by (metis length_map nth_eq_iff_index_eq nth_map)
      with that j show False by simp
    qed
    moreover from new_fresh i have "fst (new ! i) \<notin> existing_ids st" by simp
    ultimately show ?thesis using ex by simp
  qed
  from ex disjoint dis len del failed inserted isolated show ?thesis by blast
qed


theorem partial_failure_isolated_witness:
  "insert_rows_json sync_world (trace example_page_state) (BQ_TABLE_ID example_config)
        (map (\<lambda>(i, r). sanitize_record_for_bq example_dumps r) example_new)
        (map (\<lambda>(i, r). ODOO_MODEL example_config @ ''_'' @ py_str_int i) example_new)
      = Returns [Insert_Error 1 [''invalid'']]
   \<and> err_index (Insert_Error 1 [''invalid'']) < length example_new
   \<and> distinct (map fst example_new)
   \<and> set (map fst example_new) \<inter> existing_ids example_page_state = {}
   \<and> existing_ids (insert_new_records example_config sync_world example_dumps example_new
        example_page_state) = {1, 2, 4}
   \<and> unlinked_ids (trace (insert_new_records example_config sync_world example_dumps
        example_new example_page_state)) = [2, 4]
   \<and> total_failed (insert_new_records example_config sync_world example_dumps example_new
        example_page_state) = 1
   \<and> total_inserted (insert_new_records example_config sync_world example_dumps example_new
        example_page_state) = 2
   \<and> fst (example_new ! 1) = 3"
proof -
  have h1: "insert_rows_json sync_world (trace example_page_state) (BQ_TABLE_ID example_config)
        (map (\<lambda>(i, r). sanitize_record_for_bq example_dumps r) example_new)
        (map (\<lambda>(i, r). ODOO_MODEL example_config @ ''_'' @ py_str_int i) example_new)
      = Returns [Insert_Error 1 [''invalid'']]"
    by (simp add: sync_world_def example_new_def)
  have h2: "[Insert_Error 1 [''invalid'']] \<noteq> []" by simp
  have h3: "\<forall>e\<in>set [Insert_Error 1 [''invalid'']]. err_index e < length example_new"
    by (simp add: example_new_def)
  have h4: "distinct (map fst example_new)" by (simp add: example_new_def)
  have h5: "\<forall>p\<in>set example_new. fst p \<notin> existing_ids example_page_state"
    by (simp add: example_new_def example_page_state_def)
  have ids: "ids_not_failed (err_index ` set [Insert_Error 1 [''invalid'']]) example_new = [2, 4]"
    by code_simp
  have ids': "ids_not_failed {Suc 0} example_new = [2, 4]"
    by code_simp
  have cfg: "DELETE_SYNCED_RECORDS example_config" by (simp add: example_config_def)
  have st: "existing_ids example_page_state = {1}" "trace example_page_state = []"
    "total_failed example_page_state = 0" "total_inserted example_page_state = 0"
    by (simp_all add: example_page_state_def)
  have third: "fst (example_new ! 1) = 3" by (simp add: example_new_def)
  have len: "length example_new = 3" by (simp add: example_new_def)
  have disj: "set (map fst example_new) \<inter> existing_ids example_page_state = {}"
    by (simp add: example_new_def example_page_state_def)
  from partial_failure_isolated [OF h1 h2 h3 h4 h5] h1 h4 disj third
  show ?thesis
    by (auto simp: ids ids' cfg st len unlinked_ids_def)
qed

section \<open>A bulk insert that raises\<close>

text \<open>
  Claim C8. At the loop head, let the page fetch return records that all carry an integer
  id, some of them new, and let the bulk insert of the new ones raise. Then the pass
  leaves the existing ids, the inserted, failed and deleted counters and the delete
  calls as they were, no exception escapes, the offset advances by the batch limit, and
  the loop goes on with the next page from that state unless the advanced offset has
  reached 100 times the batch limit.
\<close>

theorem raised_insert_abandons_page:
  assumes fetch: "search_read w (trace st) (offset st) (BATCH_LIMIT cfg) df = Returns batch"
    and ids: "\<forall>r\<in>set batch. record_id r \<noteq> None"
    and some_new: "filter (\<lambda>r. \<not> already_synced (existing_ids st) r) batch \<noteq> []"
    and raised: "insert_rows_json w
        (trace st @ [Search_Read (offset st) (BATCH_LIMIT cfg) df (Returns batch)])
        (BQ_TABLE_ID cfg)
        (map (sanitize_record_for_bq dumps)
           (filter (\<lambda>r. \<not> already_synced (existing_ids st) r) batch))
        (map (insert_id cfg) (filter (\<lambda>r. \<not> already_synced (existing_ids st) r) batch))
      = Raises"
    and head: "\<not> uncaught st"
  shows "\<exists>st' again. iteration cfg w dumps df st = (st', again)
     \<and> existing_ids st' = existing_ids st
     \<and> filter is_unlink (trace st') = filter is_unlink (trace st)
     \<and> unlinked_ids (trace st') = unlinked_ids (trace st)
     \<and> total_inserted st' = total_inserted st
     \<and> total_failed st' = total_failed st
     \<and> total_deleted st' = total_deleted st
     \<and> \<not> uncaught st'
     \<and> offset st' = offset st + BATCH_LIMIT cfg
     \<and> again = (offset st + BATCH_LIMIT cfg < BATCH_LIMIT cfg * 100)
     \<and> (again \<longrightarrow> drain cfg w dumps df st = drain cfg w dumps df st')"
proof -
  from read_ids_total [OF ids] obtain keyed where keyed: "read_ids batch = Some keyed" ..
  let ?E = "existing_ids st"
  let ?new = "filter (\<lambda>(i, r). i \<notin> ?E) keyed"
  let ?fresh = "filter (\<lambda>r. \<not> already_synced ?E r) batch"
  let ?tr = "trace st @ [Search_Read (offset st) (BATCH_LIMIT cfg) df (Returns batch)]"
  let ?st1 = "st\<lparr>trace := ?tr\<rparr>"
  let ?st2 = "?st1\<lparr>total_fetched := total_fetched st + int (length batch),
                 total_skipped := total_skipped st + (int (length batch) - int (length ?new))\<rparr>"
  let ?ev = "Insert_Rows (BQ_TABLE_ID cfg)
            (map (\<lambda>(i, r). sanitize_record_for_bq dumps r) ?new)
            (map (\<lambda>(i, r). ODOO_MODEL cfg @ ''_'' @ py_str_int i) ?new) Raises"
  let ?st3 = "?st2\<lparr>trace := ?tr @ [?ev]\<rparr>"
  let ?st' = "?st3\<lparr>offset := offset st + BATCH_LIMIT cfg\<rparr>"
  let ?again = "offset st + BATCH_LIMIT cfg < BATCH_LIMIT cfg * 100"
  note view = read_ids_view [OF keyed, of ?E _ cfg]
  have rows: "map (\<lambda>(i, r). sanitize_record_for_bq dumps r) ?new
      = map (sanitize_record_for_bq dumps) ?fresh"
    using view [of "sanitize_record_for_bq dumps"] by simp
  have rids: "map (\<lambda>(i, r). ODOO_MODEL cfg @ ''_'' @ py_str_int i) ?new = map (insert_id cfg) ?fresh"
    using view [of id] by simp
  have "length ?new = length ?fresh" using view [of id] by (metis length_map)
  with some_new have new: "?new \<noteq> []" by (metis length_0_conv)
  from some_new have batch: "batch \<noteq> []" by auto
  have ins: "insert_new_records cfg w dumps ?new ?st2 = ?st3"
    using raised rows rids by (simp add: insert_raises)
  have pb: "process_batch cfg w dumps batch ?st1 = ?st3"
    using keyed new ins by (simp add: process_batch_def Let_def)
  have it: "iteration cfg w dumps df st = (?st', ?again)"
    using fetch batch pb head
    by (simp add: iteration_def fetch_records_batch_def Let_def not_le)
  have loop: "drain cfg w dumps df st = drain cfg w dumps df ?st'" if ?again
    using it that by (subst drain.simps) simp
  have "existing_ids ?st' = existing_ids st
     \<and> filter is_unlink (trace ?st') = filter is_unlink (trace st)
     \<and> unlinked_ids (trace ?st') = unlinked_ids (trace st)
     \<and> total_inserted ?st' = total_inserted st
     \<and> total_failed ?st' = total_failed st
     \<and> total_deleted ?st' = total_deleted st
     \<and> \<not> uncaught ?st'
     \<and> offset ?st' = offset st + BATCH_LIMIT cfg"
    using head by (simp add: unlinked_ids_def)
  with it loop show ?thesis by blast
qed


theorem raised_insert_abandons_page_witness:
  "search_read sync_world (trace example_second_head) (offset example_second_head)
       (BATCH_LIMIT example_config) None = Returns [example_record 5]
   \<and> record_id (example_record 5) = Some 5
   \<and> filter (\<lambda>r. \<not> already_synced (existing_ids example_second_head) r) [example_record 5]
       = [example_record 5]
   \<and> \<not> uncaught example_second_head
   \<and> existing_ids (fst (iteration example_config sync_world example_dumps None
         example_second_head)) = {1, 2, 4}
   \<and> total_inserted (fst (iteration example_config sync_world example_dumps None
         example_second_head)) = 2
   \<and> total_failed (fst (iteration example_config sync_world example_dumps None
         example_second_head)) = 1
   \<and> unlinked_ids (trace (fst (iteration example_config sync_world example_dumps None
         example_second_head))) = []
   \<and> offset (fst (iteration example_config sync_world example_dumps None
         example_second_head)) = 20
   \<and> snd (iteration example_config sync_world example_dumps None example_second_head)"
proof -
  have h1: "search_read sync_world (trace example_second_head) (offset example_second_head)
       (BATCH_LIMIT example_config) None = Returns [example_record 5]"
    by (simp add: sync_world_def example_second_head_def)
  have h2: "\<forall>r\<in>set [example_record 5]. record_id r \<noteq> None"
    by (simp add: example_record_def record_id_def)
  have new: "filter (\<lambda>r. \<not> already_synced (existing_ids example_second_head) r)
       [example_record 5] = [example_record 5]"
    by (simp add: already_synced_def example_record_def record_id_def example_second_head_def)
  then have h3: "filter (\<lambda>r. \<not> already_synced (existing_ids example_second_head) r)
       [example_record 5] \<noteq> []"
    by simp
  have h4: "insert_rows_json sync_world
        (trace example_second_head @ [Search_Read (offset example_second_head)
           (BATCH_LIMIT example_config) None (Returns [example_record 5])])
        (BQ_TABLE_ID example_config)
        (map (sanitize_record_for_bq example_dumps)
           (filter (\<lambda>r. \<not> already_synced (existing_ids example_second_head) r)
              [example_record 5]))
        (map (insert_id example_config)
           (filter (\<lambda>r. \<not> already_synced (existing_ids example_second_head) r)
              [example_record 5]))
      = Raises"
    by (simp add: new sync_world_def)
  have h5: "\<not> uncaught example_second_head" by (simp add: example_second_head_def)
  have st: "existing_ids example_second_head = {1, 2, 4}" "offset example_second_head = 10"
    "total_inserted example_second_head = 2" "total_failed example_second_head = 1"
    "trace example_second_head = []"
    by (simp_all add: example_second_head_def)
  have lim: "BATCH_LIMIT example_config = 10" by (simp add: example_config_def)
  have r5: "record_id (example_record 5) = Some 5"
    by (simp add: example_record_def record_id_def)
  from raised_insert_abandons_page [OF h1 h2 h3 h4 h5] h1 r5 new h5
  show ?thesis
    by (auto simp: st lim unlinked_ids_def)
qed

section \<open>Accounting of the counters\<close>

lemma abandoned_append: "abandoned_rows (a @ b) = abandoned_rows a + abandoned_rows b"
  by (simp add: abandoned_rows_def)

lemma raised_with_rows_append:
  "raised_with_rows (a @ b) \<longleftrightarrow> raised_with_rows a \<and> raised_with_rows b"
  by (simp add: raised_with_rows_def)

lemma abandoned_nonneg: "0 \<le> abandoned_rows tr"
proof -
  have "0 \<le> rows_abandoned e" for e
    by (cases e rule: rows_abandoned.cases) simp_all
  then show ?thesis
    unfolding abandoned_rows_def by (induction tr) (simp_all add: add_nonneg_nonneg)
qed

lemma abandoned_zero_iff:
  "raised_with_rows tr \<Longrightarrow> abandoned_rows tr = 0 \<longleftrightarrow> \<not> list_ex insert_raised tr"
proof (induction tr)
  case Nil
  then show ?case by (simp add: abandoned_rows_def)
next
  case (Cons e tr)
  have nn: "0 \<le> abandoned_rows tr" by (rule abandoned_nonneg)
  have e0: "0 \<le> rows_abandoned e" by (cases e rule: rows_abandoned.cases) simp_all
  have quiet: "rows_abandoned e = 0" if "\<not> insert_raised e"
    using that by (cases e rule: rows_abandoned.cases) simp_all
  from Cons.prems have tr: "raised_with_rows tr" and e: "\<not> insert_raised e \<or> 0 < rows_abandoned e"
    by (simp_all add: raised_with_rows_def)
  have sum: "abandoned_rows (e # tr) = rows_abandoned e + abandoned_rows tr"
    by (simp add: abandoned_rows_def)
  show ?case
  proof (cases "insert_raised e")
    case True
    with e nn sum show ?thesis by simp
  next
    case False
    with quiet sum Cons.IH [OF tr] show ?thesis by simp
  qed
qed

lemma insert_accounting:
  assumes "new \<noteq> []"
  shows "total_inserted (insert_new_records cfg w dumps new st)
         + total_failed (insert_new_records cfg w dumps new st)
         + abandoned_rows (trace (insert_new_records cfg w dumps new st))
       = total_inserted st + total_failed st + abandoned_rows (trace st) + int (length new)"
    and "raised_with_rows (trace st) \<Longrightarrow>
           raised_with_rows (trace (insert_new_records cfg w dumps new st))"
proof -
  let ?rows = "map (\<lambda>(i, r). sanitize_record_for_bq dumps r) new"
  let ?ids = "map (\<lambda>(i, r). ODOO_MODEL cfg @ ''_'' @ py_str_int i) new"
  let ?res = "insert_rows_json w (trace st) (BQ_TABLE_ID cfg) ?rows ?ids"
  have both: "(total_inserted (insert_new_records cfg w dumps new st)
         + total_failed (insert_new_records cfg w dumps new st)
         + abandoned_rows (trace (insert_new_records cfg w dumps new st))
       = total_inserted st + total_failed st + abandoned_rows (trace st) + int (length new))
     \<and> (raised_with_rows (trace st) \<longrightarrow>
           raised_with_rows (trace (insert_new_records cfg w dumps new st)))"
  proof (cases ?res)
    case Raises
    with assms show ?thesis
      by (simp add: insert_raises abandoned_append raised_with_rows_append)
         (simp add: abandoned_rows_def raised_with_rows_def)
  next
    case (Returns errors)
    then show ?thesis
      by (simp add: insert_returned reconcile_fields reconcile_trace abandoned_append
             raised_with_rows_append)
         (simp add: abandoned_rows_def raised_with_rows_def)
  qed
  from both show "total_inserted (insert_new_records cfg w dumps new st)
         + total_failed (insert_new_records cfg w dumps new st)
         + abandoned_rows (trace (insert_new_records cfg w dumps new st))
       = total_inserted st + total_failed st + abandoned_rows (trace st) + int (length new)"
    by simp
  from both show "raised_with_rows (trace st) \<Longrightarrow>
           raised_with_rows (trace (insert_new_records cfg w dumps new st))"
    by simp
qed

lemma process_uncaught:
  "uncaught (process_batch cfg w dumps batch st) \<longleftrightarrow> uncaught st \<or> read_ids batch = None"
  by (auto simp: process_batch_def Let_def insert_fields split: option.splits)

lemma process_accounting:
  assumes "read_ids batch = Some keyed"
  shows "unaccounted (process_batch cfg w dumps batch st)
           - abandoned_rows (trace (process_batch cfg w dumps batch st))
         = unaccounted st - abandoned_rows (trace st)"
    and "raised_with_rows (trace st) \<Longrightarrow>
           raised_with_rows (trace (process_batch cfg w dumps batch st))"
proof -
  let ?new = "filter (\<lambda>(i, r). i \<notin> existing_ids st) keyed"
  let ?st2 = "st\<lparr>total_fetched := total_fetched st + int (length batch),
                 total_skipped := total_skipped st + (int (length batch) - int (length ?new))\<rparr>"
  have both: "unaccounted (process_batch cfg w dumps batch st)
           - abandoned_rows (trace (process_batch cfg w dumps batch st))
         = unaccounted st - abandoned_rows (trace st)
      \<and> (raised_with_rows (trace st) \<longrightarrow>
           raised_with_rows (trace (process_batch cfg w dumps batch st)))"
  proof (cases "?new = []")
    case True
    with assms have "process_batch cfg w dumps batch st = ?st2"
      by (simp add: process_batch_def Let_def)
    with True show ?thesis by (simp add: unaccounted_def)
  next
    case False
    with assms have pb: "process_batch cfg w dumps batch st = insert_new_records cfg w dumps ?new ?st2"
      by (simp add: process_batch_def Let_def)
    from insert_accounting(1) [OF False, of cfg w dumps ?st2]
      insert_accounting(2) [OF False, of ?st2 cfg w dumps]
    show ?thesis
      by (simp add: pb unaccounted_def insert_fields)
  qed
  from both show "unaccounted (process_batch cfg w dumps batch st)
           - abandoned_rows (trace (process_batch cfg w dumps batch st))
         = unaccounted st - abandoned_rows (trace st)" by simp
  from both show "raised_with_rows (trace st) \<Longrightarrow>
           raised_with_rows (trace (process_batch cfg w dumps batch st))" by simp
qed

lemma iteration_accounting:
  assumes "\<not> uncaught (fst (iteration cfg w dumps df st))"
  shows "unaccounted (fst (iteration cfg w dumps df st))
           - abandoned_rows (trace (fst (iteration cfg w dumps df st)))
         = unaccounted st - abandoned_rows (trace st)"
    and "raised_with_rows (trace st) \<Longrightarrow>
           raised_with_rows (trace (fst (iteration cfg w dumps df st)))"
proof -
  let ?r = "search_read w (trace st) (offset st) (BATCH_LIMIT cfg) df"
  let ?batch = "case ?r of Raises \<Rightarrow> [] | Returns records \<Rightarrow> records"
  let ?ev = "Search_Read (offset st) (BATCH_LIMIT cfg) df ?r"
  let ?st1 = "st\<lparr>trace := trace st @ [?ev]\<rparr>"
  let ?st2 = "process_batch cfg w dumps ?batch ?st1"
  have st1: "unaccounted ?st1 - abandoned_rows (trace ?st1) = unaccounted st - abandoned_rows (trace st)"
    "raised_with_rows (trace st) \<Longrightarrow> raised_with_rows (trace ?st1)"
    by (simp_all add: unaccounted_def abandoned_append raised_with_rows_append)
       (simp_all add: abandoned_rows_def raised_with_rows_def)
  have both: "unaccounted (fst (iteration cfg w dumps df st))
           - abandoned_rows (trace (fst (iteration cfg w dumps df st)))
         = unaccounted st - abandoned_rows (trace st)
     \<and> (raised_with_rows (trace st) \<longrightarrow>
           raised_with_rows (trace (fst (iteration cfg w dumps df st))))"
  proof (cases "?batch = []")
    case True
    then have "fst (iteration cfg w dumps df st) = ?st1"
      by (simp add: iteration_def fetch_records_batch_def Let_def)
    with st1 show ?thesis by simp
  next
    case False
    show ?thesis
    proof (cases "uncaught ?st2")
      case True
      with False have "fst (iteration cfg w dumps df st) = ?st2"
        by (simp add: iteration_def fetch_records_batch_def Let_def)
      with assms True show ?thesis by simp
    next
      case unc: False
      with False have it: "fst (iteration cfg w dumps df st) =
          ?st2\<lparr>offset := offset ?st2 + BATCH_LIMIT cfg\<rparr>"
        by (simp add: iteration_def fetch_records_batch_def Let_def)
      from unc obtain keyed where keyed: "read_ids ?batch = Some keyed"
        by (auto simp: process_uncaught)
      from process_accounting(1) [OF keyed, of cfg w dumps ?st1]
        process_accounting(2) [OF keyed, of ?st1 cfg w dumps] st1
      show ?thesis
        by (simp add: it unaccounted_def)
    qed
  qed
  from both show "unaccounted (fst (iteration cfg w dumps df st))
           - abandoned_rows (trace (fst (iteration cfg w dumps df st)))
         = unaccounted st - abandoned_rows (trace st)" by simp
  from both show "raised_with_rows (trace st) \<Longrightarrow>
           raised_with_rows (trace (fst (iteration cfg w dumps df st)))" by simp
qed

lemma iteration_uncaught:
  "uncaught st \<Longrightarrow> uncaught (fst (iteration cfg w dumps df st))"
  by (simp add: iteration_def fetch_records_batch_def Let_def process_uncaught)


text \<open>
  Claim C10. A pass of the loop that ends without an escaped exception changes the
  difference between the fetched counter and the sum of the inserted, failed and skipped
  counters by exactly the number of rows of a bulk insert that raised in that pass. So a
  run that reaches its summary has fetched = inserted + failed + skipped + the rows of
  the bulk inserts that raised: the identity without the last term holds when no bulk
  insert raised, and fails, with fetched the larger side, when one did.
\<close>

theorem accounting_identity:
  "(\<not> uncaught (fst (iteration cfg w dumps df st)) \<longrightarrow>
      unaccounted (fst (iteration cfg w dumps df st))
        - abandoned_rows (trace (fst (iteration cfg w dumps df st)))
      = unaccounted st - abandoned_rows (trace st))
   \<and> (\<exists>res. run_sync cfg w dumps = Some res
        \<and> (\<forall>fin. res = Sync_Finished fin \<longrightarrow> \<not> uncaught fin \<longrightarrow>
              total_fetched fin =
                total_inserted fin + total_failed fin + total_skipped fin
                + abandoned_rows (trace fin)
              \<and> (\<not> list_ex insert_raised (trace fin) \<longrightarrow>
                   total_fetched fin = total_inserted fin + total_failed fin + total_skipped fin)
              \<and> (list_ex insert_raised (trace fin) \<longrightarrow>
                   total_inserted fin + total_failed fin + total_skipped fin < total_fetched fin)))"
proof -
  have run: "\<exists>res. run_sync cfg w dumps = Some res
        \<and> (\<forall>fin. res = Sync_Finished fin \<longrightarrow> \<not> uncaught fin \<longrightarrow>
              total_fetched fin =
                total_inserted fin + total_failed fin + total_skipped fin
                + abandoned_rows (trace fin)
              \<and> (\<not> list_ex insert_raised (trace fin) \<longrightarrow>
                   total_fetched fin = total_inserted fin + total_failed fin + total_skipped fin)
              \<and> (list_ex insert_raised (trace fin) \<longrightarrow>
                   total_inserted fin + total_failed fin + total_skipped fin < total_fetched fin))"
  proof (cases "get_table w [] (BQ_TABLE_ID cfg)")
    case Raises
    from run_sync_table_missing [OF this, of dumps] show ?thesis by auto
  next
    case (Returns u)
    let ?q = "query_ids w [Get_Table (BQ_TABLE_ID cfg) (Returns u)] (BQ_TABLE_ID cfg)"
    let ?st0 = "\<lparr>existing_ids = (case ?q of Raises \<Rightarrow> {} | Returns ids \<Rightarrow> set ids),
      offset = 0, total_fetched = 0, total_inserted = 0, total_skipped = 0,
      total_deleted = 0, total_failed = 0,
      trace = [Get_Table (BQ_TABLE_ID cfg) (Returns u), Query_Ids (BQ_TABLE_ID cfg) ?q],
      uncaught = False\<rparr>"
    let ?I = "\<lambda>s. uncaught s \<or>
        (unaccounted s = abandoned_rows (trace s) \<and> raised_with_rows (trace s))"
    have "\<exists>fin. drain cfg w dumps (date_filter_of cfg w) ?st0 = Some fin \<and> ?I fin"
    proof (rule drain_returns [where I = ?I])
      show "offset ?st0 = 0" by simp
    next
      show "?I ?st0"
        by (simp add: unaccounted_def abandoned_rows_def raised_with_rows_def)
    next
      fix s :: sync_state
      let ?s' = "fst (iteration cfg w dumps (date_filter_of cfg w) s)"
      assume I: "?I s"
      show "?I ?s'"
      proof (cases "uncaught ?s'")
        case True
        then show ?thesis by simp
      next
        case False
        with iteration_uncaught [of s cfg w dumps "date_filter_of cfg w"]
        have "\<not> uncaught s" by blast
        with I have J: "unaccounted s = abandoned_rows (trace s)" "raised_with_rows (trace s)"
          by simp_all
        from iteration_accounting(1) [OF False] J(1)
        have "unaccounted ?s' = abandoned_rows (trace ?s')" by simp
        with iteration_accounting(2) [OF False J(2)] show ?thesis by simp
      qed
    qed
    then obtain fin where fin: "drain cfg w dumps (date_filter_of cfg w) ?st0 = Some fin"
      and I: "?I fin" by blast
    have "total_fetched fin =
                total_inserted fin + total_failed fin + total_skipped fin
                + abandoned_rows (trace fin)
              \<and> (\<not> list_ex insert_raised (trace fin) \<longrightarrow>
                   total_fetched fin = total_inserted fin + total_failed fin + total_skipped fin)
              \<and> (list_ex insert_raised (trace fin) \<longrightarrow>
                   total_inserted fin + total_failed fin + total_skipped fin < total_fetched fin)"
      if "\<not> uncaught fin"
    proof -
      from I that have J: "unaccounted fin = abandoned_rows (trace fin)"
        "raised_with_rows (trace fin)" by simp_all
      from abandoned_zero_iff [OF J(2)] abandoned_nonneg [of "trace fin"] J(1)
      show ?thesis by (auto simp: unaccounted_def)
    qed
    then have facts: "\<forall>fin'. Sync_Finished fin = Sync_Finished fin' \<longrightarrow> \<not> uncaught fin' \<longrightarrow>
              total_fetched fin' =
                total_inserted fin' + total_failed fin' + total_skipped fin'
                + abandoned_rows (trace fin')
              \<and> (\<not> list_ex insert_raised (trace fin') \<longrightarrow>
                   total_fetched fin' = total_inserted fin' + total_failed fin' + total_skipped fin')
              \<and> (list_ex insert_raised (trace fin') \<longrightarrow>
                   total_inserted fin' + total_failed fin' + total_skipped fin' < total_fetched fin')"
      by blast
    have "run_sync cfg w dumps = Some (Sync_Finished fin)"
      using run_sync_table_found [OF Returns, of dumps] fin by simp
    with facts show ?thesis by blast
  qed
  have pass: "\<not> uncaught (fst (iteration cfg w dumps df st)) \<longrightarrow>
      unaccounted (fst (iteration cfg w dumps df st))
        - abandoned_rows (trace (fst (iteration cfg w dumps df st)))
      = unaccounted st - abandoned_rows (trace st)"
    using iteration_accounting(1) by blast
  from pass run show ?thesis by (rule conjI)
qed

theorem accounting_identity_witness:
  "run_sync example_config sync_world example_dumps = Some (Sync_Finished example_final)
   \<and> \<not> uncaught example_final
   \<and> list_ex insert_raised (trace example_final)
   \<and> total_fetched example_final = 5
   \<and> total_inserted example_final + total_failed example_final + total_skipped example_final = 4
   \<and> abandoned_rows (trace example_final) = 1
   \<and> total_inserted example_final + total_failed example_final + total_skipped example_final
       < total_fetched example_final"
  using accounting_identity [of example_config sync_world example_dumps None example_second_head]
    example_run
  by (simp add: example_final_def abandoned_rows_def)

end
